theory Spec2Isabelle
  imports Complex_Main
begin

section \<open>Strings\<close>

text \<open>
  JavaScript strings are sequences of code units. They are modelled as \<^typ>\<open>string\<close>,
  a character of the model being the code unit with the same number: the model holds
  the strings whose code units are below 256 (U+0000 to U+00FF), and the string
  primitives of the platform are written out for this range. There \<open>toLowerCase\<close> works
  one character at a time: it maps \<open>A\<close>..\<open>Z\<close> (65 to 90) and the capital letters U+00C0 to
  U+00DE other than the multiplication sign U+00D7 (192 to 222 without 215) to the
  letter 32 places on, and leaves every other character alone. \<open>trim\<close> removes the white
  space and the line terminators of the language from both ends; below 256 these are
  tab, line feed, vertical tab, form feed, carriage return, space and the no-break space
  U+00A0 (160).
\<close>

definition toLowerCase_char :: "char \<Rightarrow> char" where
  "toLowerCase_char c =
     (let n = (of_char c :: nat)
      in if (65 \<le> n \<and> n \<le> 90) \<or> (192 \<le> n \<and> n \<le> 214) \<or> (216 \<le> n \<and> n \<le> 222)
         then char_of (n + 32) else c)"

definition toLowerCase :: "string \<Rightarrow> string" where
  "toLowerCase s = map toLowerCase_char s"

definition isWhiteSpace :: "char \<Rightarrow> bool" where
  "isWhiteSpace c = ((of_char c :: nat) \<in> {9, 10, 11, 12, 13, 32, 160})"

definition trim :: "string \<Rightarrow> string" where
  "trim s = rev (dropWhile isWhiteSpace (rev (dropWhile isWhiteSpace s)))"

text \<open>\<open>t.startsWith(k)\<close> and \<open>t.includes(k)\<close>.\<close>

fun startsWith :: "string \<Rightarrow> string \<Rightarrow> bool" where
  "startsWith t [] = True"
| "startsWith [] (k # ks) = False"
| "startsWith (c # cs) (k # ks) = (c = k \<and> startsWith cs ks)"

fun str_includes :: "string \<Rightarrow> string \<Rightarrow> bool" where
  "str_includes [] k = (k = [])"
| "str_includes (c # cs) k = (startsWith (c # cs) k \<or> str_includes cs k)"

text \<open>\<open>parts.join(sep)\<close>.\<close>

fun join :: "string \<Rightarrow> string list \<Rightarrow> string" where
  "join sep [] = []"
| "join sep [p] = p"
| "join sep (p # q # ps) = p @ sep @ join sep (q # ps)"

text \<open>\<open>s.split(sep)\<close> for a one-character separator: always at least one part.\<close>

fun split_on :: "char \<Rightarrow> string \<Rightarrow> string list" where
  "split_on sep [] = [[]]"
| "split_on sep (c # cs) =
     (if c = sep then [] # split_on sep cs
      else (case split_on sep cs of
              [] \<Rightarrow> [[c]]
            | p # ps \<Rightarrow> (c # p) # ps))"

text \<open>
  \<open>parseInt(s, 10)\<close>: leading white space is skipped, one sign is read, then the longest
  run of decimal digits; no digit there gives \<open>NaN\<close>, which is \<open>None\<close> here. The numbers
  of the program are integers the service sends as decimal strings; they are modelled
  as unbounded integers, which is what the doubles of the platform hold exactly below
  \<open>2^53\<close>. A property that depends on the arithmetic of the view counts is stated for
  the samples within that range (\<open>exactInDoubles\<close> below).
\<close>

definition isDigit :: "char \<Rightarrow> bool" where
  "isDigit c = (let n = (of_char c :: nat) in 48 \<le> n \<and> n \<le> 57)"

definition digitsToInt :: "string \<Rightarrow> int" where
  "digitsToInt ds = foldl (\<lambda>acc d. 10 * acc + (of_char d - 48)) 0 ds"

definition parseInt :: "string \<Rightarrow> int option" where
  "parseInt str =
     (let s = dropWhile isWhiteSpace str;
          neg = (s \<noteq> [] \<and> hd s = CHR ''-'');
          body = (if s \<noteq> [] \<and> (hd s = CHR ''-'' \<or> hd s = CHR ''+'') then tl s else s);
          ds = takeWhile isDigit body
      in if ds = [] then None
         else Some (if neg then - digitsToInt ds else digitsToInt ds))"

section \<open>Identifier normalisation\<close>

text \<open>The test \<open>/^UC[A-Za-z0-9_-]{20,}$/\<close> for a canonical channel id.\<close>

definition isIdChar :: "char \<Rightarrow> bool" where
  "isIdChar c =
     (let n = (of_char c :: nat)
      in (65 \<le> n \<and> n \<le> 90) \<or> (97 \<le> n \<and> n \<le> 122) \<or> (48 \<le> n \<and> n \<le> 57)
         \<or> c = CHR ''_'' \<or> c = CHR ''-'')"

definition isChannelId :: "string \<Rightarrow> bool" where
  "isChannelId s =
     (case s of
        c1 # c2 # rest \<Rightarrow>
          c1 = CHR ''U'' \<and> c2 = CHR ''C'' \<and> 20 \<le> length rest \<and> list_all isIdChar rest
      | _ \<Rightarrow> False)"

text \<open>
  \<open>normalizeChannelIdOrUrl(item)\<close>. The URL parser of the platform is a parameter:
  \<open>URL_pathname s\<close> is the \<open>pathname\<close> of \<open>new URL(s)\<close>, and \<open>None\<close> where the constructor
  throws (the \<open>catch\<close> branch of the function). The result \<open>None\<close> is JavaScript's
  \<open>null\<close>.
\<close>

definition normalizeChannelIdOrUrl :: "(string \<Rightarrow> string option) \<Rightarrow> string \<Rightarrow> string option" where
  "normalizeChannelIdOrUrl URL_pathname item =
     (if item = [] then None
      else
        let s = trim item in
        if isChannelId s then Some s
        else
          (case URL_pathname s of
             None \<Rightarrow> Some s
           | Some pathname \<Rightarrow>
               (case filter (\<lambda>p. p \<noteq> []) (split_on (CHR ''/'') pathname) of
                  p0 # p1 # _ \<Rightarrow> if p0 = ''channel'' then Some p1 else Some s
                | _ \<Rightarrow> Some s)))"

section \<open>Durations\<close>

text \<open>
  \<open>isoDurationToSeconds(iso)\<close>. The pattern \<open>/PT(?:(\d+)H)?(?:(\d+)M)?(?:(\d+)S)?/\<close> is
  not anchored: it matches at the first \<open>PT\<close> of the string, and each of the three groups
  takes a run of digits followed by its letter when that is what comes next, and is
  undefined (read as 0) otherwise.
\<close>

fun afterFirstPT :: "string \<Rightarrow> string option" where
  "afterFirstPT [] = None"
| "afterFirstPT (c # cs) =
     (if startsWith (c # cs) ''PT'' then Some (tl cs) else afterFirstPT cs)"

definition durationGroup :: "char \<Rightarrow> string \<Rightarrow> nat \<times> string" where
  "durationGroup letter s =
     (let ds = takeWhile isDigit s; rest = dropWhile isDigit s
      in if ds \<noteq> [] \<and> rest \<noteq> [] \<and> hd rest = letter then (nat (digitsToInt ds), tl rest)
         else (0, s))"

definition isoDurationToSeconds :: "string \<Rightarrow> nat" where
  "isoDurationToSeconds dur =
     (if dur = [] then 0
      else
        (case afterFirstPT dur of
           None \<Rightarrow> 0
         | Some r0 \<Rightarrow>
             (let (hours, r1) = durationGroup (CHR ''H'') r0;
                  (minutes, r2) = durationGroup (CHR ''M'') r1;
                  (seconds, r3) = durationGroup (CHR ''S'') r2
              in hours * 3600 + minutes * 60 + seconds)))"

section \<open>The remote service\<close>

text \<open>
  A resource of the service (a search result, a channel, a playlist item or a video) is
  a JSON object whose parts may be missing; one record holds the fields the program
  reads, each absent part is \<open>None\<close>. \<open>publishedAt\<close> is the time value, in milliseconds,
  of \<open>new Date(snippet.publishedAt)\<close>.
\<close>

record snippet =
  title :: "string option"
  description :: "string option"
  country :: "string option"
  channelId :: "string option"
  publishedAt :: int

record statistics =
  hiddenSubscriberCount :: bool
  subscriberCount :: "string option"
  viewCount :: "string option"

record contentDetails =
  uploads :: "string option"
  videoId :: "string option"
  duration :: "string option"

record item =
  item_id :: "string option"
  id_channelId :: "string option"
  item_snippet :: "snippet option"
  item_statistics :: "statistics option"
  item_contentDetails :: "contentDetails option"

record response =
  items :: "item list option"
  nextPageToken :: "string option"

text \<open>
  What one call of \<open>fetchLib\<close> and the reading of its body come to: a body that parses
  (\<open>res.ok\<close> and \<open>res.json()\<close> succeed), a status that is not ok with the text of the
  body, or a rejection (the request fails, it times out, or the body is not JSON).
\<close>

datatype fetch_outcome =
    Ok_json response
  | Not_ok nat string
  | Rejected string

text \<open>
  The errors of the program. \<open>YouTubeApiError status text\<close> is
  \<open>new Error(`YouTube API error ${res.status}: ${text}`)\<close>, \<open>FetchError m\<close> is the error a
  rejected fetch carries, \<open>TypeError\<close> is a property read on \<open>undefined\<close>.
\<close>

datatype error =
    YouTubeApiError nat string
  | FetchError string
  | TypeError

datatype param = PStr string | PNum int | PUndefined

record request =
  path :: string
  params :: "(string \<times> param) list"

text \<open>
  The remote service answers the \<open>n\<close>-th fetch of the run (counted from 0) to a given
  request; the state of the client is the number of fetches made so far and the log of
  every \<open>sleep(ms)\<close>, oldest first.
\<close>

type_synonym remote = "nat \<Rightarrow> request \<Rightarrow> fetch_outcome"

record client =
  fetches :: nat
  sleeps :: "nat list"

definition sleep :: "nat \<Rightarrow> client \<Rightarrow> client" where
  "sleep ms st = st\<lparr>sleeps := sleeps st @ [ms]\<rparr>"

definition fetchLib :: "remote \<Rightarrow> request \<Rightarrow> client \<Rightarrow> fetch_outcome \<times> client" where
  "fetchLib remote req st = (remote (fetches st) req, st\<lparr>fetches := Suc (fetches st)\<rparr>)"

text \<open>
  What \<open>await youtubeApiRequest(...)\<close> comes to: the parsed body, \<open>undefined\<close> (the
  function ran off its end), or an error thrown to the caller.
\<close>

datatype api_result =
    Json response
  | Undefined
  | Thrown error

text \<open>
  The loop of \<open>youtubeApiRequest(path, params, maxRetries)\<close>, from the value \<open>attempt\<close>
  has at the head of the \<open>while\<close>. A status that is not ok and is neither 403 nor 429
  throws inside the \<open>try\<close>, so it lands in the same \<open>catch\<close> as a rejected fetch.
\<close>

function youtubeApiRequest_loop ::
  "remote \<Rightarrow> request \<Rightarrow> nat \<Rightarrow> nat \<Rightarrow> client \<Rightarrow> api_result \<times> client" where
  "youtubeApiRequest_loop remote req maxRetries attempt st =
     (if attempt \<le> maxRetries then
        (case fetchLib remote req st of
           (Ok_json body, st1) \<Rightarrow> (Json body, st1)
         | (Not_ok status txt, st1) \<Rightarrow>
             if status = 403 \<or> status = 429 then
               youtubeApiRequest_loop remote req maxRetries (attempt + 1)
                 (sleep (1000 * 2 ^ (attempt + 1)) st1)
             else if attempt + 1 > maxRetries then (Thrown (YouTubeApiError status txt), st1)
             else
               youtubeApiRequest_loop remote req maxRetries (attempt + 1)
                 (sleep (1000 * 2 ^ (attempt + 1)) st1)
         | (Rejected msg, st1) \<Rightarrow>
             if attempt + 1 > maxRetries then (Thrown (FetchError msg), st1)
             else
               youtubeApiRequest_loop remote req maxRetries (attempt + 1)
                 (sleep (1000 * 2 ^ (attempt + 1)) st1))
      else (Undefined, st))"
  by pat_completeness auto
termination
  by (relation "measure (\<lambda>(remote, req, maxRetries, attempt, st). Suc maxRetries - attempt)") auto

declare youtubeApiRequest_loop.simps [simp del]

text \<open>\<open>youtubeApiRequest(path, params)\<close> with the credential added and \<open>maxRetries = 3\<close>.\<close>

definition youtubeApiRequest ::
  "remote \<Rightarrow> string \<Rightarrow> string \<Rightarrow> (string \<times> param) list \<Rightarrow> client \<Rightarrow> api_result \<times> client" where
  "youtubeApiRequest remote apiKey p ps st =
     youtubeApiRequest_loop remote \<lparr>path = p, params = ps @ [(''key'', PStr apiKey)]\<rparr> 3 0 st"

section \<open>Configuration\<close>

text \<open>
  The input of the run, after the defaults. An entry of a keyword list is a string, or
  \<open>None\<close> for an entry that is no string and is falsy (\<open>null\<close>). The field \<open>country\<close> of
  the input is \<open>targetCountry\<close> here.
\<close>

record config =
  apiKey :: string
  minSubscribers :: int
  avgViewsMin :: int
  avgViewsMax :: "int option"
  recentVideoWithinDays :: int
  sampleSize :: int
  allowShorts :: bool
  includeKeywords :: "string option list"
  excludeKeywords :: "string option list"
  targetCountry :: string
  maxChannels :: int
  seedChannels :: "string list"
  searchQueries :: "string list"
  sleepMs :: nat

text \<open>Truthiness of a value that is a string or missing: a non-empty string.\<close>

fun truthy :: "string option \<Rightarrow> bool" where
  "truthy None = False"
| "truthy (Some s) = (s \<noteq> [])"

section \<open>The four operations of the client\<close>

text \<open>\<open>it.snippet?.channelId || it?.id?.channelId\<close>\<close>

definition searchChannelId :: "item \<Rightarrow> string option" where
  "searchChannelId it =
     (case item_snippet it of
        Some sn \<Rightarrow> if truthy (channelId sn) then channelId sn else id_channelId it
      | None \<Rightarrow> id_channelId it)"

definition discoverChannelsBySearch ::
  "remote \<Rightarrow> config \<Rightarrow> string \<Rightarrow> int \<Rightarrow> client \<Rightarrow> string list \<times> client" where
  "discoverChannelsBySearch remote cfg query maxResults st =
     (case youtubeApiRequest remote (apiKey cfg) ''search''
             [(''part'', PStr ''snippet''), (''q'', PStr query), (''type'', PStr ''channel''),
              (''maxResults'', PNum (min maxResults 50))] st of
        (Json resp, st1) \<Rightarrow>
          (case items resp of
             Some its \<Rightarrow>
               (map the (filter truthy (map searchChannelId its)), sleep (sleepMs cfg) st1)
           | None \<Rightarrow> ([], sleep (sleepMs cfg) st1))
      | (Undefined, st1) \<Rightarrow> ([], sleep (sleepMs cfg) st1)
      | (Thrown e, st1) \<Rightarrow> ([], st1))"

text \<open>
  \<open>getChannelsDetails(channelIds)\<close> has no \<open>try\<close>: an error of the request goes to the
  caller, and so does the \<open>TypeError\<close> of \<open>resp.items\<close> when the request gave
  \<open>undefined\<close> (after the pacing delay).
\<close>

definition getChannelsDetails ::
  "remote \<Rightarrow> config \<Rightarrow> string list \<Rightarrow> client \<Rightarrow> (error + item list) \<times> client" where
  "getChannelsDetails remote cfg channelIds st =
     (if channelIds = [] then (Inr [], st)
      else
        (case youtubeApiRequest remote (apiKey cfg) ''channels''
                [(''part'', PStr ''snippet,statistics,contentDetails''),
                 (''id'', PStr (join '','' channelIds)),
                 (''maxResults'', PNum (int (length channelIds)))] st of
           (Thrown e, st1) \<Rightarrow> (Inl e, st1)
         | (Undefined, st1) \<Rightarrow> (Inl TypeError, sleep (sleepMs cfg) st1)
         | (Json resp, st1) \<Rightarrow>
             (case items resp of
                Some its \<Rightarrow> (Inr its, sleep (sleepMs cfg) st1)
              | None \<Rightarrow> (Inr [], sleep (sleepMs cfg) st1))))"

text \<open>The \<open>for\<close> loop over one page of \<open>getPlaylistVideoIds\<close>, with its \<open>break\<close>.\<close>

fun pushVideoIds :: "int \<Rightarrow> string list \<Rightarrow> item list \<Rightarrow> string list" where
  "pushVideoIds limit ids [] = ids"
| "pushVideoIds limit ids (it # its) =
     (let ids1 =
            (case item_contentDetails it of
               Some cd \<Rightarrow> if truthy (videoId cd) then ids @ [the (videoId cd)] else ids
             | None \<Rightarrow> ids)
      in if int (length ids1) \<ge> limit then ids1 else pushVideoIds limit ids1 its)"

text \<open>
  The \<open>do ... while\<close> loop of \<open>getPlaylistVideoIds(playlistId, limit)\<close>, from the values
  \<open>ids\<close> and \<open>pageToken\<close> have at the head of the body. The service may hand out
  continuation tokens for ever, so the loop need not end: \<open>None\<close> is the run that never
  returns. Every error inside the loop, the \<open>TypeError\<close> of \<open>resp.items\<close> on \<open>undefined\<close>
  included, lands in the \<open>catch\<close>, which returns the ids collected so far.
\<close>

partial_function (option) getPlaylistVideoIds_loop ::
  "remote \<Rightarrow> config \<Rightarrow> string \<Rightarrow> int \<Rightarrow> string list \<Rightarrow> string option \<Rightarrow> client
     \<Rightarrow> (string list \<times> client) option" where
  "getPlaylistVideoIds_loop remote cfg playlistId limit ids pageToken st =
     (case youtubeApiRequest remote (apiKey cfg) ''playlistItems''
             [(''part'', PStr ''contentDetails,snippet''),
              (''playlistId'', PStr playlistId),
              (''maxResults'', PNum (min 50 (limit - int (length ids)))),
              (''pageToken'', if truthy pageToken then PStr (the pageToken) else PUndefined)] st of
        (Thrown e, st1) \<Rightarrow> Some (ids, st1)
      | (Undefined, st1) \<Rightarrow> Some (ids, st1)
      | (Json resp, st1) \<Rightarrow>
          (let ids1 = pushVideoIds limit ids (case items resp of Some its \<Rightarrow> its | None \<Rightarrow> []);
               st2 = sleep (sleepMs cfg) st1
           in if truthy (nextPageToken resp) \<and> int (length ids1) < limit
              then getPlaylistVideoIds_loop remote cfg playlistId limit ids1 (nextPageToken resp) st2
              else Some (ids1, st2)))"

definition getPlaylistVideoIds ::
  "remote \<Rightarrow> config \<Rightarrow> string \<Rightarrow> int \<Rightarrow> client \<Rightarrow> (string list \<times> client) option" where
  "getPlaylistVideoIds remote cfg playlistId limit st =
     getPlaylistVideoIds_loop remote cfg playlistId limit [] None st"

text \<open>\<open>getVideosDetails(videoIds)\<close>: chunks of 50, a failed chunk is dropped.\<close>

function getVideosDetails_loop ::
  "remote \<Rightarrow> config \<Rightarrow> string list \<Rightarrow> item list \<Rightarrow> client \<Rightarrow> item list \<times> client" where
  "getVideosDetails_loop remote cfg videoIds all st =
     (if videoIds = [] then (all, st)
      else
        (let chunk = take 50 videoIds in
         case youtubeApiRequest remote (apiKey cfg) ''videos''
                [(''part'', PStr ''snippet,statistics,contentDetails''),
                 (''id'', PStr (join '','' chunk)),
                 (''maxResults'', PNum (int (length chunk)))] st of
           (Json resp, st1) \<Rightarrow>
             getVideosDetails_loop remote cfg (drop 50 videoIds)
               (case items resp of Some its \<Rightarrow> all @ its | None \<Rightarrow> all)
               (sleep (sleepMs cfg) st1)
         | (Undefined, st1) \<Rightarrow>
             getVideosDetails_loop remote cfg (drop 50 videoIds) all (sleep (sleepMs cfg) st1)
         | (Thrown e, st1) \<Rightarrow>
             getVideosDetails_loop remote cfg (drop 50 videoIds) all (sleep (sleepMs cfg) st1)))"
  by pat_completeness auto
termination
  by (relation "measure (\<lambda>(remote, cfg, videoIds, all, st). length videoIds)") auto

declare getVideosDetails_loop.simps [simp del]

definition getVideosDetails ::
  "remote \<Rightarrow> config \<Rightarrow> string list \<Rightarrow> client \<Rightarrow> item list \<times> client" where
  "getVideosDetails remote cfg videoIds st = getVideosDetails_loop remote cfg videoIds [] st"

section \<open>Evaluation of one candidate\<close>

subsection \<open>The channel\<close>

text \<open>\<open>x || ''\<close> for a string that may be missing.\<close>

fun orEmpty :: "string option \<Rightarrow> string" where
  "orEmpty None = []"
| "orEmpty (Some s) = s"

definition channelTitle :: "item \<Rightarrow> string" where
  "channelTitle ch = orEmpty (case item_snippet ch of Some sn \<Rightarrow> title sn | None \<Rightarrow> None)"

definition channelDescription :: "item \<Rightarrow> string" where
  "channelDescription ch =
     orEmpty (case item_snippet ch of Some sn \<Rightarrow> description sn | None \<Rightarrow> None)"

definition channelCountry :: "item \<Rightarrow> string" where
  "channelCountry ch = orEmpty (case item_snippet ch of Some sn \<Rightarrow> country sn | None \<Rightarrow> None)"

text \<open>
  The local \<open>subscriberCount\<close>: \<open>None\<close> is \<open>null\<close>, \<open>Some None\<close> is the \<open>NaN\<close> of a count
  that does not parse.
\<close>

definition channelSubscriberCount :: "item \<Rightarrow> int option option" where
  "channelSubscriberCount ch =
     (case item_statistics ch of
        None \<Rightarrow> None
      | Some stt \<Rightarrow>
          if hiddenSubscriberCount stt then None
          else if truthy (subscriberCount stt) then Some (parseInt (the (subscriberCount stt)))
          else None)"

definition uploadsPlaylistId :: "item \<Rightarrow> string option" where
  "uploadsPlaylistId ch = (case item_contentDetails ch of Some cd \<Rightarrow> uploads cd | None \<Rightarrow> None)"

subsection \<open>The metrics of the sample\<close>

text \<open>
  \<open>videos.sort(...)\<close> by publication time, latest first. The sort is stable. Its
  comparator reads \<open>snippet.publishedAt\<close> of both arguments and is called on every
  element once there are two: a video without a snippet is a \<open>TypeError\<close> then.
\<close>

definition sortByPublishedAt :: "item list \<Rightarrow> error + item list" where
  "sortByPublishedAt videos =
     (if 2 \<le> length videos \<and> list_ex (\<lambda>v. item_snippet v = None) videos then Inl TypeError
      else Inr (sort_key (\<lambda>v. - publishedAt (the (item_snippet v))) videos))"

text \<open>\<open>xs.slice(0, n)\<close>: a negative \<open>n\<close> counts from the end.\<close>

definition slice0 :: "'a list \<Rightarrow> int \<Rightarrow> 'a list" where
  "slice0 xs n = (if n < 0 then take (length xs - nat (- n)) xs else take (nat n) xs)"

text \<open>
  \<open>Math.round\<close> rounds to the nearest integer, a half upwards. The quotients of the
  program are modelled as rationals.
\<close>

definition Math_round :: "rat \<Rightarrow> int" where
  "Math_round x = \<lfloor>x + 1 / 2\<rfloor>"

definition videoViewCount :: "item \<Rightarrow> int" where
  "videoViewCount v =
     (case item_statistics v of
        Some stt \<Rightarrow>
          if truthy (viewCount stt)
          then (case parseInt (the (viewCount stt)) of Some n \<Rightarrow> n | None \<Rightarrow> 0)
          else 0
      | None \<Rightarrow> 0)"

definition avgViews :: "item list \<Rightarrow> int" where
  "avgViews sampleVideos =
     (let viewCounts = map videoViewCount sampleVideos
      in if viewCounts \<noteq> []
         then Math_round (of_int (sum_list viewCounts) / of_nat (length viewCounts))
         else 0)"

text \<open>\<open>sampleVideos.some(v => new Date(v.snippet.publishedAt) >= thresholdDate)\<close>\<close>

fun someRecent :: "int \<Rightarrow> item list \<Rightarrow> error + bool" where
  "someRecent thresholdDate [] = Inr False"
| "someRecent thresholdDate (v # vs) =
     (case item_snippet v of
        None \<Rightarrow> Inl TypeError
      | Some sn \<Rightarrow>
          if publishedAt sn \<ge> thresholdDate then Inr True else someRecent thresholdDate vs)"

definition hasRecentWithin :: "config \<Rightarrow> int \<Rightarrow> item list \<Rightarrow> error + bool" where
  "hasRecentWithin cfg now sampleVideos =
     (if recentVideoWithinDays cfg \<noteq> 0 \<and> recentVideoWithinDays cfg > 0
      then someRecent (now - recentVideoWithinDays cfg * 24 * 3600 * 1000) sampleVideos
      else Inr True)"

definition videoDurationSeconds :: "item \<Rightarrow> nat" where
  "videoDurationSeconds v =
     (case item_contentDetails v of
        Some cd \<Rightarrow> if truthy (duration cd) then isoDurationToSeconds (the (duration cd)) else 0
      | None \<Rightarrow> 0)"

definition videoTitleLower :: "item \<Rightarrow> string" where
  "videoTitleLower v =
     (case item_snippet v of
        Some sn \<Rightarrow> if truthy (title sn) then toLowerCase (the (title sn)) else []
      | None \<Rightarrow> [])"

definition shortFlag :: "item \<Rightarrow> bool" where
  "shortFlag v =
     (let dur = videoDurationSeconds v; t = videoTitleLower v
      in (dur > 0 \<and> dur < 60) \<or> str_includes t ''short'')"

definition shortsRatio :: "item list \<Rightarrow> rat" where
  "shortsRatio sampleVideos =
     (let shortFlags = map shortFlag sampleVideos;
          shortCount = length (filter (\<lambda>b. b) shortFlags)
      in if sampleVideos \<noteq> [] then of_nat shortCount / of_nat (length sampleVideos) else 0)"

subsection \<open>The keyword filters\<close>

text \<open>
  \<open>(v.snippet && (v.snippet.title + ' ' + (v.snippet.description || ''))) || ''\<close>: a
  missing title is the text \<open>undefined\<close>.
\<close>

definition videoText :: "item \<Rightarrow> string" where
  "videoText v =
     (case item_snippet v of
        Some sn \<Rightarrow>
          (case title sn of Some t \<Rightarrow> t | None \<Rightarrow> ''undefined'') @ '' '' @ orEmpty (description sn)
      | None \<Rightarrow> [])"

definition combinedTextParts :: "item \<Rightarrow> item list \<Rightarrow> string list" where
  "combinedTextParts ch sampleVideos =
     [channelTitle ch, channelDescription ch] @ map videoText sampleVideos"

definition combinedText :: "item \<Rightarrow> item list \<Rightarrow> string" where
  "combinedText ch sampleVideos = toLowerCase (join '' '' (combinedTextParts ch sampleVideos))"

text \<open>
  The loop both keyword filters run over their list: a falsy entry is passed over, the
  first entry the text includes (in lower case) ends the loop.
\<close>

fun keywordLoop :: "string \<Rightarrow> string option list \<Rightarrow> bool" where
  "keywordLoop text [] = False"
| "keywordLoop text (kw # kws) =
     (if \<not> truthy kw then keywordLoop text kws
      else if str_includes text (toLowerCase (the kw)) then True
      else keywordLoop text kws)"

definition excluded :: "config \<Rightarrow> string \<Rightarrow> bool" where
  "excluded cfg text = (if excludeKeywords cfg \<noteq> [] then keywordLoop text (excludeKeywords cfg) else False)"

definition includedByKeyword :: "config \<Rightarrow> string \<Rightarrow> bool" where
  "includedByKeyword cfg text =
     (if includeKeywords cfg \<noteq> [] then keywordLoop text (includeKeywords cfg) else True)"

subsection \<open>The output record\<close>

text \<open>
  In a sample entry \<open>sv_viewCount = None\<close> is \<open>NaN\<close>; in the record
  \<open>r_subscriberCount\<close> is the local \<open>subscriberCount\<close> and \<open>r_lastScrapedAt\<close> the time of
  the evaluation.
\<close>

record sample_video =
  sv_videoId :: "string option"
  sv_title :: "string option"
  sv_publishedAt :: "int option"
  sv_viewCount :: "int option"
  sv_durationSeconds :: nat
  sv_url :: string

record channel_record =
  r_channelId :: string
  r_channelName :: string
  r_channelUrl :: string
  r_subscriberCount :: "int option option"
  r_avgViews :: int
  r_sampleSize :: nat
  r_shortsRatio :: rat
  r_recentVideoWithinDays :: int
  r_includeKeywords :: "string option list"
  r_excludeKeywords :: "string option list"
  r_country :: string
  r_description :: string
  r_lastScrapedAt :: int
  r_sampleVideos :: "sample_video list"

definition sampleVideoOut :: "item \<Rightarrow> sample_video" where
  "sampleVideoOut v =
     \<lparr>sv_videoId = item_id v,
      sv_title = (case item_snippet v of Some sn \<Rightarrow> title sn | None \<Rightarrow> None),
      sv_publishedAt = (case item_snippet v of Some sn \<Rightarrow> Some (publishedAt sn) | None \<Rightarrow> None),
      sv_viewCount =
        (case item_statistics v of
           Some stt \<Rightarrow> if truthy (viewCount stt) then parseInt (the (viewCount stt)) else Some 0
         | None \<Rightarrow> Some 0),
      sv_durationSeconds = videoDurationSeconds v,
      sv_url =
        ''https://www.youtube.com/watch?v='' @
          (case item_id v of Some i \<Rightarrow> i | None \<Rightarrow> ''undefined'')\<rparr>"

definition assembleRecord :: "config \<Rightarrow> int \<Rightarrow> string \<Rightarrow> item \<Rightarrow> item list \<Rightarrow> channel_record" where
  "assembleRecord cfg now cid ch sampleVideos =
     \<lparr>r_channelId = cid,
      r_channelName = channelTitle ch,
      r_channelUrl = ''https://www.youtube.com/channel/'' @ cid,
      r_subscriberCount = channelSubscriberCount ch,
      r_avgViews = avgViews sampleVideos,
      r_sampleSize = length sampleVideos,
      r_shortsRatio = shortsRatio sampleVideos,
      r_recentVideoWithinDays = recentVideoWithinDays cfg,
      r_includeKeywords = includeKeywords cfg,
      r_excludeKeywords = excludeKeywords cfg,
      r_country = channelCountry ch,
      r_description = channelDescription ch,
      r_lastScrapedAt = now,
      r_sampleVideos = map sampleVideoOut sampleVideos\<rparr>"

subsection \<open>The filter chain\<close>

text \<open>
  How the body of the main loop ends for one candidate: one of the \<open>continue\<close>
  statements, in the order of the source, the record pushed to \<open>results\<close>, or an error
  caught by the \<open>catch\<close> of the body.
\<close>

datatype outcome =
    NoChannelDetails
  | CountryMismatch
  | CountryMissing
  | SubscribersBelowMin
  | SubscribersHidden
  | NoUploadsPlaylist
  | NoRecentVideos
  | NoVideoDetails
  | NoRecentVideoWithinTimeframe
  | ShortsPresent
  | ExcludedByKeyword
  | NoIncludeKeyword
  | AvgViewsBelowMin
  | AvgViewsAboveMax
  | Saved channel_record
  | Failed error

text \<open>The filters on the channel alone; \<open>None\<close> lets the candidate through.\<close>

definition channelGate :: "config \<Rightarrow> item \<Rightarrow> outcome option" where
  "channelGate cfg ch =
     (if targetCountry cfg \<noteq> [] \<and> channelCountry ch \<noteq> []
         \<and> \<not> str_includes (toLowerCase (channelCountry ch)) (toLowerCase (targetCountry cfg))
      then Some CountryMismatch
      else if targetCountry cfg \<noteq> [] \<and> channelCountry ch = [] then Some CountryMissing
      else if (case channelSubscriberCount ch of
                 Some (Some n) \<Rightarrow> n < minSubscribers cfg
               | Some None \<Rightarrow> False
               | None \<Rightarrow> False)
      then Some SubscribersBelowMin
      else if channelSubscriberCount ch = None \<and> minSubscribers cfg > 0 then Some SubscribersHidden
      else if \<not> truthy (uploadsPlaylistId ch) then Some NoUploadsPlaylist
      else None)"

text \<open>
  The rest of the body, from the sort of the fetched videos to the record; \<open>now\<close> is
  the clock of the platform.
\<close>

definition sampleGate :: "config \<Rightarrow> int \<Rightarrow> string \<Rightarrow> item \<Rightarrow> item list \<Rightarrow> outcome" where
  "sampleGate cfg now cid ch videos =
     (case sortByPublishedAt videos of
        Inl e \<Rightarrow> Failed e
      | Inr sorted_videos \<Rightarrow>
          (let sampleVideos = slice0 sorted_videos (sampleSize cfg) in
           case hasRecentWithin cfg now sampleVideos of
             Inl e \<Rightarrow> Failed e
           | Inr recent \<Rightarrow>
               if \<not> recent then NoRecentVideoWithinTimeframe
               else if \<not> allowShorts cfg \<and> shortsRatio sampleVideos > 0 then ShortsPresent
               else if excluded cfg (combinedText ch sampleVideos) then ExcludedByKeyword
               else if \<not> includedByKeyword cfg (combinedText ch sampleVideos) then NoIncludeKeyword
               else if avgViews sampleVideos < avgViewsMin cfg then AvgViewsBelowMin
               else if (case avgViewsMax cfg of Some m \<Rightarrow> avgViews sampleVideos > m | None \<Rightarrow> False)
               then AvgViewsAboveMax
               else Saved (assembleRecord cfg now cid ch sampleVideos)))"

text \<open>
  The body of the main loop for one candidate, with its fetches. \<open>None\<close> is the run
  whose playlist pagination never ends.
\<close>

type_synonym clock = "nat \<Rightarrow> int"

definition processChannel ::
  "remote \<Rightarrow> clock \<Rightarrow> config \<Rightarrow> string \<Rightarrow> client \<Rightarrow> (outcome \<times> client) option" where
  "processChannel remote clock cfg cid st =
     (case getChannelsDetails remote cfg [cid] st of
        (Inl e, st1) \<Rightarrow> Some (Failed e, st1)
      | (Inr [], st1) \<Rightarrow> Some (NoChannelDetails, st1)
      | (Inr (ch # _), st1) \<Rightarrow>
          (case channelGate cfg ch of
             Some skip \<Rightarrow> Some (skip, st1)
           | None \<Rightarrow>
               (case getPlaylistVideoIds remote cfg (the (uploadsPlaylistId ch)) (sampleSize cfg) st1 of
                  None \<Rightarrow> None
                | Some (videoIds, st2) \<Rightarrow>
                    if videoIds = [] then Some (NoRecentVideos, st2)
                    else
                      (case getVideosDetails remote cfg videoIds st2 of
                         (videos, st3) \<Rightarrow>
                           if videos = [] then Some (NoVideoDetails, st3)
                           else Some (sampleGate cfg (clock (fetches st3)) cid ch videos, st3)))))"

section \<open>The run\<close>

text \<open>\<open>candidateChannelIds.add(id)\<close> on a set that keeps insertion order.\<close>

definition addCandidate :: "string list \<Rightarrow> string \<Rightarrow> string list" where
  "addCandidate cands c = (if c \<in> set cands then cands else cands @ [c])"

fun collectSeeds ::
  "remote \<Rightarrow> (string \<Rightarrow> string option) \<Rightarrow> config \<Rightarrow> string list \<Rightarrow> string list \<Rightarrow> client
     \<Rightarrow> string list \<times> client" where
  "collectSeeds remote URL_pathname cfg [] cands st = (cands, st)"
| "collectSeeds remote URL_pathname cfg (s # ss) cands st =
     (let normalized = normalizeChannelIdOrUrl URL_pathname s in
      if \<not> truthy normalized then collectSeeds remote URL_pathname cfg ss cands st
      else if isChannelId (the normalized)
      then collectSeeds remote URL_pathname cfg ss (addCandidate cands (the normalized)) st
      else
        (case discoverChannelsBySearch remote cfg (the normalized) 5 st of
           (found, st1) \<Rightarrow>
             collectSeeds remote URL_pathname cfg ss (foldl addCandidate cands found) st1))"

fun collectQueries ::
  "remote \<Rightarrow> config \<Rightarrow> string list \<Rightarrow> string list \<Rightarrow> client \<Rightarrow> string list \<times> client" where
  "collectQueries remote cfg [] cands st = (cands, st)"
| "collectQueries remote cfg (q # qs) cands st =
     (case discoverChannelsBySearch remote cfg q 50 st of
        (ids, st1) \<Rightarrow> collectQueries remote cfg qs (foldl addCandidate cands ids) st1)"

text \<open>\<open>Array.from(candidateChannelIds).slice(0, Math.max(maxChannels, 0))\<close>\<close>

definition channelIdsArray :: "config \<Rightarrow> string list \<Rightarrow> string list" where
  "channelIdsArray cfg candidateChannelIds =
     slice0 candidateChannelIds (max (maxChannels cfg) 0)"

text \<open>
  The state of the main loop, what one pass through the body makes of it, and the
  loop from the candidates still to visit. A \<open>continue\<close> skips the pacing delay at the
  end of the body; a saved record and a caught error reach it.
\<close>

record run =
  results :: "channel_record list"
  processed :: "string set"
  api :: client

fun afterChannel :: "config \<Rightarrow> string \<Rightarrow> run \<Rightarrow> outcome \<times> client \<Rightarrow> run" where
  "afterChannel cfg cid rn (Saved r, st1) =
     \<lparr>results = results rn @ [r], processed = insert cid (processed rn),
      api = sleep (sleepMs cfg) st1\<rparr>"
| "afterChannel cfg cid rn (Failed e, st1) =
     \<lparr>results = results rn, processed = insert cid (processed rn),
      api = sleep (sleepMs cfg) st1\<rparr>"
| "afterChannel cfg cid rn (skip, st1) =
     \<lparr>results = results rn, processed = insert cid (processed rn), api = st1\<rparr>"

fun main_loop :: "remote \<Rightarrow> clock \<Rightarrow> config \<Rightarrow> string list \<Rightarrow> run \<Rightarrow> run option" where
  "main_loop remote clock cfg [] rn = Some rn"
| "main_loop remote clock cfg (cid # rest) rn =
     (if int (length (results rn)) < maxChannels cfg then
        if cid \<in> processed rn then main_loop remote clock cfg rest rn
        else
          (case processChannel remote clock cfg cid (api rn) of
             None \<Rightarrow> None
           | Some end_of_body \<Rightarrow>
               main_loop remote clock cfg rest (afterChannel cfg cid rn end_of_body))
      else Some rn)"

text \<open>
  The run: the credential check, the collection of the candidates from the seeds and
  the queries, the cut to \<open>maxChannels\<close>, the main loop.
\<close>

datatype fatal = MissingApiKey

definition Apify_main ::
  "remote \<Rightarrow> clock \<Rightarrow> (string \<Rightarrow> string option) \<Rightarrow> config \<Rightarrow> (fatal + run) option" where
  "Apify_main remote clock URL_pathname cfg =
     (if apiKey cfg = [] \<or> trim (apiKey cfg) = [] then Some (Inl MissingApiKey)
      else
        (case collectSeeds remote URL_pathname cfg (seedChannels cfg) [] \<lparr>fetches = 0, sleeps = []\<rparr> of
           (cands1, st1) \<Rightarrow>
             (case collectQueries remote cfg (searchQueries cfg) cands1 st1 of
                (cands2, st2) \<Rightarrow>
                  map_option Inr
                    (main_loop remote clock cfg (channelIdsArray cfg cands2)
                       \<lparr>results = [], processed = {}, api = st2\<rparr>))))"

section \<open>Notions the properties are stated with\<close>

text \<open>
  The delays the retry loop sleeps after the failed attempts number \<open>a + 1\<close>,
  \<open>a + 2\<close>, ..., \<open>a + k\<close>, in milliseconds.
\<close>

fun backoffs :: "nat \<Rightarrow> nat \<Rightarrow> nat list" where
  "backoffs a 0 = []"
| "backoffs a (Suc k) = 1000 * 2 ^ (a + 1) # backoffs (a + 1) k"

text \<open>
  The pagination of the service ends: from the \<open>n\<close>-th fetch of the run on, no page
  carries a continuation token.
\<close>

definition pagesEnd :: "remote \<Rightarrow> nat \<Rightarrow> bool" where
  "pagesEnd remote n =
     (\<forall>i req body. n \<le> i \<and> remote i req = Ok_json body \<longrightarrow> \<not> truthy (nextPageToken body))"

text \<open>
  A service without failures that answers a request with the page its \<open>pageToken\<close>
  parameter names, \<open>None\<close> where the parameter is \<open>undefined\<close>: \<open>page\<close> gives the page of a
  token, \<open>page None\<close> is the first page.
\<close>

definition pageTokenOf :: "request \<Rightarrow> string option" where
  "pageTokenOf req =
     (case map_of (params req) ''pageToken'' of Some (PStr t) \<Rightarrow> Some t | _ \<Rightarrow> None)"

definition playlistService :: "(string option \<Rightarrow> response) \<Rightarrow> remote" where
  "playlistService page n req = Ok_json (page (pageTokenOf req))"

text \<open>The video ids a page holds, in the order of its items.\<close>

definition itemVideoIds :: "item \<Rightarrow> string list" where
  "itemVideoIds it =
     (case item_contentDetails it of
        Some cd \<Rightarrow> if truthy (videoId cd) then [the (videoId cd)] else []
      | None \<Rightarrow> [])"

definition pageVideoIds :: "response \<Rightarrow> string list" where
  "pageVideoIds resp = concat (map itemVideoIds (case items resp of Some its \<Rightarrow> its | None \<Rightarrow> []))"

text \<open>
  The pages reached from the page of \<open>tok\<close> by following the continuation tokens:
  \<open>pageNo page tok k\<close> is the \<open>k\<close>-th of them, counted from 0, and \<open>idsThrough page tok k\<close>
  the video ids of the pages number 0 to \<open>k\<close>.
\<close>

fun pageNo :: "(string option \<Rightarrow> response) \<Rightarrow> string option \<Rightarrow> nat \<Rightarrow> response" where
  "pageNo page tok 0 = page tok"
| "pageNo page tok (Suc k) = pageNo page (nextPageToken (page tok)) k"

fun idsThrough :: "(string option \<Rightarrow> response) \<Rightarrow> string option \<Rightarrow> nat \<Rightarrow> string list" where
  "idsThrough page tok 0 = pageVideoIds (page tok)"
| "idsThrough page tok (Suc k) = pageVideoIds (page tok) @ idsThrough page (nextPageToken (page tok)) k"

text \<open>
  Page number \<open>k\<close> is the first at which the limit is reached or no continuation token
  remains, \<open>ids\<close> being the ids collected before page 0: it carries no token or brings
  the ids to \<open>limit\<close> or more, and every page before it carries a token and leaves the
  ids under \<open>limit\<close>.
\<close>

definition stopsFirstAt ::
  "(string option \<Rightarrow> response) \<Rightarrow> int \<Rightarrow> string list \<Rightarrow> string option \<Rightarrow> nat \<Rightarrow> bool" where
  "stopsFirstAt page limit ids tok k =
     ((\<not> truthy (nextPageToken (pageNo page tok k))
         \<or> limit \<le> int (length (ids @ idsThrough page tok k)))
      \<and> (\<forall>j<k. truthy (nextPageToken (pageNo page tok j))
                 \<and> int (length (ids @ idsThrough page tok j)) < limit))"

fun isSaved :: "outcome \<Rightarrow> bool" where
  "isSaved (Saved r) = True"
| "isSaved other = False"

text \<open>
  The numbers of JavaScript are doubles. A double holds every integer up to \<open>2^53\<close>
  exactly, so \<open>parseInt\<close> and the sum of \<open>reduce\<close> are exact on a sample whose view
  counts add up, in absolute value, to at most \<open>2^52\<close>. The quotient of the sum \<open>s\<close> by
  the number \<open>n\<close> of videos is then the double nearest to \<open>s / n\<close>, and \<open>Math.round\<close> of
  it is \<open>Math_round (s / n)\<close>: a half-integer \<open>h\<close> next to \<open>s / n\<close> is a double, and
  \<open>s / n\<close>, where it differs from \<open>h\<close>, is at least \<open>1 / (2 * n)\<close> away from it, more than
  half the distance between neighbouring doubles of that size as long as the absolute
  values and \<open>n\<close> add up to at most \<open>2^52\<close>. On the samples of \<open>exactInDoubles\<close> the
  integers and rationals of the model are the numbers the program computes.
\<close>

definition exactInDoubles :: "item list \<Rightarrow> bool" where
  "exactInDoubles sampleVideos =
     (sum_list (map (\<lambda>v. \<bar>videoViewCount v\<bar>) sampleVideos) + int (length sampleVideos)
        \<le> 2 ^ 52)"

text \<open>
  The classification of the specification, in its words: a sample video is short when
  its parsed duration is strictly under 60 seconds or its title contains \<open>short\<close>, case
  ignored; \<open>spec_shortsRatio\<close> is the fraction of such videos.
\<close>

definition spec_short :: "item \<Rightarrow> bool" where
  "spec_short v = (videoDurationSeconds v < 60 \<or> str_includes (videoTitleLower v) ''short'')"

definition spec_shortsRatio :: "item list \<Rightarrow> rat" where
  "spec_shortsRatio vs =
     (if vs = [] then 0 else of_nat (length (filter spec_short vs)) / of_nat (length vs))"

section \<open>Example data\<close>

text \<open>A parser that accepts nothing stands for \<open>new URL\<close> on strings that are no URLs.\<close>

definition URL_rejects :: "string \<Rightarrow> string option" where
  "URL_rejects s = None"

text \<open>The defaults of the input, with a credential.\<close>

definition default_config :: config where
  "default_config =
     \<lparr>apiKey = ''key'', minSubscribers = 1000, avgViewsMin = 0, avgViewsMax = None,
      recentVideoWithinDays = 30, sampleSize = 12, allowShorts = False, includeKeywords = [],
      excludeKeywords =
        [Some ''entrepreneur'', Some ''marketing'', Some ''guru'', Some ''growth'',
         Some ''7-figure'', Some ''funnel'', Some ''agency''],
      targetCountry = [], maxChannels = 200, seedChannels = [], searchQueries = [],
      sleepMs = 200\<rparr>"

text \<open>
  A configuration with the recency check off, the include keyword \<open>coach\<close> and the
  exclude keyword \<open>guru\<close>.
\<close>

definition guru_config :: config where
  "guru_config =
     default_config\<lparr>recentVideoWithinDays := 0, includeKeywords := [Some ''coach''],
                    excludeKeywords := [Some ''guru'']\<rparr>"

text \<open>
  A configuration with the recency check off, the empty string as its only exclude
  keyword, and room for one channel.
\<close>

definition empty_keyword_config :: config where
  "empty_keyword_config =
     default_config\<lparr>recentVideoWithinDays := 0, excludeKeywords := [Some []], maxChannels := 1\<rparr>"

text \<open>A video resource: id, title, view count, duration code, publication time.\<close>

definition video :: "string \<Rightarrow> string \<Rightarrow> string \<Rightarrow> string \<Rightarrow> int \<Rightarrow> item" where
  "video i t views dur published =
     \<lparr>item_id = Some i, id_channelId = None,
      item_snippet =
        Some \<lparr>title = Some t, description = Some [], country = None, channelId = None,
              publishedAt = published\<rparr>,
      item_statistics =
        Some \<lparr>hiddenSubscriberCount = False, subscriberCount = None, viewCount = Some views\<rparr>,
      item_contentDetails = Some \<lparr>uploads = None, videoId = None, duration = Some dur\<rparr>\<rparr>"

definition three_videos :: "item list" where
  "three_videos =
     [video ''a'' ''One'' ''1000'' ''PT10M'' 3, video ''b'' ''Two'' ''2000'' ''PT10M'' 2,
      video ''c'' ''Three'' ''3000'' ''PT10M'' 1]"

definition five_videos :: "item list" where
  "five_videos =
     [video ''a'' ''One'' ''10'' ''PT45S'' 5, video ''b'' ''Two'' ''10'' ''PT12M3S'' 4,
      video ''c'' ''Three'' ''10'' ''PT59S'' 3, video ''d'' ''Four'' ''10'' ''PT1M'' 2,
      video ''e'' ''Five'' ''10'' ''PT1H2M30S'' 1]"

text \<open>A live broadcast: the service gives it the duration code \<open>P0D\<close>.\<close>

definition live_video :: item where
  "live_video = video ''v1'' ''Live Q and A'' ''100'' ''P0D'' 1700000000000"

definition coach_channel :: item where
  "coach_channel =
     \<lparr>item_id = Some ''UCcoachcoachcoachcoach00'', id_channelId = None,
      item_snippet =
        Some \<lparr>title = Some ''Trading Coach'', description = Some ''The Guru of charts'',
              country = Some ''US'', channelId = None, publishedAt = 1500000000000\<rparr>,
      item_statistics =
        Some \<lparr>hiddenSubscriberCount = False, subscriberCount = Some ''50000'', viewCount = None\<rparr>,
      item_contentDetails =
        Some \<lparr>uploads = Some ''UUcoachcoachcoachcoach00'', videoId = None, duration = None\<rparr>\<rparr>"

definition playlistItem :: "string \<Rightarrow> item" where
  "playlistItem v =
     \<lparr>item_id = None, id_channelId = None, item_snippet = None, item_statistics = None,
      item_contentDetails = Some \<lparr>uploads = None, videoId = Some v, duration = None\<rparr>\<rparr>"

definition emptyPage :: response where
  "emptyPage = \<lparr>items = Some [], nextPageToken = None\<rparr>"

definition twoItemPage :: response where
  "twoItemPage = \<lparr>items = Some [playlistItem ''v1'', playlistItem ''v2''], nextPageToken = None\<rparr>"

text \<open>
  Remote services: one that is out of quota for ever, one that cannot be reached, one
  that is out of quota once, one that answers every request with the same page of two
  playlist items.
\<close>

definition always429 :: remote where
  "always429 n req = Not_ok 429 ''quotaExceeded''"

definition alwaysRejected :: remote where
  "alwaysRejected n req = Rejected ''socket hang up''"

definition once429 :: remote where
  "once429 n req = (if n = 0 then Not_ok 429 ''quotaExceeded'' else Ok_json emptyPage)"

definition onePageRemote :: remote where
  "onePageRemote n req = Ok_json twoItemPage"

text \<open>
  A playlist of two pages: the first fetch is answered with one item and a
  continuation token, every later one with one item and no token.
\<close>

definition twoPagesRemote :: remote where
  "twoPagesRemote n req =
     (if n = 0 then Ok_json \<lparr>items = Some [playlistItem ''v1''], nextPageToken = Some ''page2''\<rparr>
      else Ok_json \<lparr>items = Some [playlistItem ''v2''], nextPageToken = None\<rparr>)"

text \<open>
  The pages of an uploads playlist, by token: the first page holds one item and the
  token \<open>page2\<close>, the page of that token holds two items and no token.
\<close>

definition uploadsPages :: "string option \<Rightarrow> response" where
  "uploadsPages tok =
     (if tok = None
      then \<lparr>items = Some [playlistItem ''v1''], nextPageToken = Some ''page2''\<rparr>
      else if tok = Some ''page2''
      then \<lparr>items = Some [playlistItem ''v2'', playlistItem ''v3''], nextPageToken = None\<rparr>
      else emptyPage)"

definition freshClient :: client where
  "freshClient = \<lparr>fetches = 0, sleeps = []\<rparr>"

text \<open>
  A service that knows one channel: it answers a \<open>channels\<close> request with the example
  channel, a \<open>playlistItems\<close> request with the page of two items, and any other request
  with the three example videos. The clock stands still.
\<close>

definition coachRemote :: remote where
  "coachRemote n req =
     (if path req = ''channels'' then Ok_json \<lparr>items = Some [coach_channel], nextPageToken = None\<rparr>
      else if path req = ''playlistItems'' then Ok_json twoItemPage
      else Ok_json \<lparr>items = Some three_videos, nextPageToken = None\<rparr>)"

definition fixedClock :: clock where
  "fixedClock n = 1700000000000"

definition two_candidates :: "string list" where
  "two_candidates = [''UCcoachcoachcoachcoach00'', ''UCcoachcoachcoachcoach01'']"

section \<open>Properties\<close>

subsection \<open>Identifier normalisation\<close>

lemma trim_no_surrounding_space:
  assumes "s \<noteq> []" "\<not> isWhiteSpace (hd s)" "\<not> isWhiteSpace (last s)"
  shows "trim s = s"
proof -
  from assms have lead: "dropWhile isWhiteSpace s = s"
    by (cases s) auto
  from assms have trail: "dropWhile isWhiteSpace (rev s) = rev s"
    by (cases "rev s") (auto simp: hd_rev)
  show ?thesis by (simp add: trim_def lead trail)
qed

lemma trim_my_channel: "trim ''my channel'' = ''my channel''"
  by code_simp

lemma my_channel_no_id: "\<not> isChannelId ''my channel''"
  by code_simp

lemma trim_no_break_space:
  "trim (CHR 0xA0 # ''abc'') = ''abc''"
  "trim (''UCabcdefghijklmnopqrstuv'' @ [CHR 0xA0]) = ''UCabcdefghijklmnopqrstuv''"
  by code_simp+

lemma abc_no_id: "\<not> isChannelId ''abc''"
  by code_simp

text \<open>
  The white space of \<open>trim\<close> includes the no-break space: a channel id followed by one is
  a channel id once trimmed, and is returned without it.
\<close>

lemma normalize_id_no_break_space:
  "normalizeChannelIdOrUrl URL_pathname (''UCabcdefghijklmnopqrstuv'' @ [CHR 0xA0])
     = Some ''UCabcdefghijklmnopqrstuv''"
proof -
  have "isChannelId ''UCabcdefghijklmnopqrstuv''"
    by code_simp
  then show ?thesis
    by (simp add: normalizeChannelIdOrUrl_def trim_no_break_space(2) Let_def
          del: append.simps)
qed

text \<open>
  C5, as amended. For every input string with code units below 256: an input that, once
  trimmed, is neither a canonical channel id nor a string the URL parser accepts comes
  back trimmed: \<open>null\<close> for the empty string, the input without its leading and trailing
  white space otherwise, hence the input itself when it is not empty and has no white
  space at either end. White space is what \<open>trim\<close> removes; in this range, the
  characters 9 to 13, the space and the no-break space. The function has no other way
  out: the only call that can throw is inside the \<open>try\<close>.
\<close>

theorem normalize_malformed:
  assumes "\<not> isChannelId (trim item)" and "URL_pathname (trim item) = None"
  shows "normalizeChannelIdOrUrl URL_pathname item = (if item = [] then None else Some (trim item))
       \<and> (item \<noteq> [] \<and> \<not> isWhiteSpace (hd item) \<and> \<not> isWhiteSpace (last item)
            \<longrightarrow> normalizeChannelIdOrUrl URL_pathname item = Some item)"
  using assms by (auto simp: normalizeChannelIdOrUrl_def Let_def trim_no_surrounding_space)

theorem normalize_malformed_witness:
  "normalizeChannelIdOrUrl URL_rejects ''my channel'' = Some ''my channel''
   \<and> normalizeChannelIdOrUrl URL_rejects (CHR 0xA0 # ''abc'') = Some ''abc''"
proof -
  have no_id: "\<not> isChannelId (trim ''my channel'')"
    by (simp add: trim_my_channel my_channel_no_id)
  have no_url: "URL_rejects (trim ''my channel'') = None"
    by (simp add: URL_rejects_def)
  have no_id': "\<not> isChannelId (trim (CHR 0xA0 # ''abc''))"
    by (simp only: trim_no_break_space abc_no_id not_False_eq_True)
  have no_url': "URL_rejects (trim (CHR 0xA0 # ''abc'')) = None"
    by (simp add: URL_rejects_def)
  from normalize_malformed[where item="''my channel''" and URL_pathname=URL_rejects, OF no_id no_url]
    normalize_malformed[where item="CHR 0xA0 # ''abc''" and URL_pathname=URL_rejects,
      OF no_id' no_url']
  show ?thesis by (simp add: trim_my_channel trim_no_break_space)
qed

text \<open>
  C5 as stated fails: the input \<open>" abc"\<close> is neither a channel id nor a URL (it has no
  scheme, \<open>new URL\<close> throws on it), and the function returns \<open>"abc"\<close>, not the input.
\<close>

theorem normalize_returns_original_counterexample:
  "\<not> isChannelId '' abc'' \<and> URL_rejects '' abc'' = None
   \<and> normalizeChannelIdOrUrl URL_rejects '' abc'' = Some ''abc''
   \<and> normalizeChannelIdOrUrl URL_rejects '' abc'' \<noteq> Some '' abc''"
  by code_simp

subsection \<open>Keyword filters\<close>

lemma keywordLoop_iff:
  "keywordLoop text kws \<longleftrightarrow>
     (\<exists>k. Some k \<in> set kws \<and> k \<noteq> [] \<and> str_includes text (toLowerCase k))"
proof (induction kws)
  case Nil
  then show ?case by simp
next
  case (Cons kw kws)
  show ?case
  proof (cases kw)
    case None
    with Cons show ?thesis by auto
  next
    case (Some k)
    with Cons show ?thesis by auto
  qed
qed

lemma str_includes_empty: "str_includes text [] = True"
  by (cases "text") auto

text \<open>
  C10. Both keyword filters match on the truthy entries of their list only: \<open>excluded\<close>
  holds exactly when some non-empty exclude keyword is included in the text, and
  \<open>includedByKeyword\<close> exactly when the include list is empty or some non-empty include
  keyword is included in the text. Every text includes the empty string, and still an
  empty or \<open>null\<close> entry at the head of a list leaves the loop's answer to the rest of the
  list.
\<close>

theorem falsy_keywords_ignored:
  "(excluded cfg text \<longleftrightarrow>
      (\<exists>k. Some k \<in> set (excludeKeywords cfg) \<and> k \<noteq> [] \<and> str_includes text (toLowerCase k)))
   \<and> (includedByKeyword cfg text \<longleftrightarrow>
        includeKeywords cfg = []
        \<or> (\<exists>k. Some k \<in> set (includeKeywords cfg) \<and> k \<noteq> [] \<and> str_includes text (toLowerCase k)))
   \<and> str_includes text (toLowerCase [])
   \<and> keywordLoop text (None # kws) = keywordLoop text kws
   \<and> keywordLoop text (Some [] # kws) = keywordLoop text kws"
  by (auto simp: excluded_def includedByKeyword_def keywordLoop_iff str_includes_empty toLowerCase_def)

subsection \<open>Recency\<close>

text \<open>
  C7. With \<open>recentVideoWithinDays = 0\<close> the recency check answers \<open>true\<close> for every
  sample, the empty one included, without reading a video, and no candidate ends at the
  recency \<open>continue\<close>: neither the filter chain on any fetched videos nor the whole body
  of the loop on any remote service.
\<close>

theorem recency_disabled:
  assumes "recentVideoWithinDays cfg = 0"
  shows "hasRecentWithin cfg now sampleVideos = Inr True
       \<and> hasRecentWithin cfg now [] = Inr True
       \<and> sampleGate cfg now cid ch videos \<noteq> NoRecentVideoWithinTimeframe
       \<and> processChannel remote clock cfg cid st \<noteq> Some (NoRecentVideoWithinTimeframe, st')"
proof -
  have recent: "\<And>t vs. hasRecentWithin cfg t vs = Inr True"
    using assms by (simp add: hasRecentWithin_def)
  have chain: "\<And>t c vs. sampleGate cfg t cid c vs \<noteq> NoRecentVideoWithinTimeframe"
    by (simp add: sampleGate_def recent Let_def split: sum.splits option.splits)
  have gate: "\<And>c. channelGate cfg c \<noteq> Some NoRecentVideoWithinTimeframe"
    by (simp add: channelGate_def)
  have body: "processChannel remote clock cfg cid st \<noteq> Some (NoRecentVideoWithinTimeframe, st')"
    using chain gate
    by (auto simp: processChannel_def
          split: prod.splits sum.splits list.splits option.splits if_splits)
  from recent chain body show ?thesis by simp
qed

subsection \<open>Substrings\<close>

lemma startsWith_iff: "startsWith t k \<longleftrightarrow> (\<exists>post. t = k @ post)"
  by (induction t k rule: startsWith.induct) auto

lemma str_includes_iff: "str_includes t k \<longleftrightarrow> (\<exists>pre post. t = pre @ k @ post)"
proof (induction t)
  case Nil
  then show ?case by auto
next
  case (Cons c cs)
  show ?case
  proof
    assume "str_includes (c # cs) k"
    then consider "startsWith (c # cs) k" | "str_includes cs k" by auto
    then show "\<exists>pre post. c # cs = pre @ k @ post"
    proof cases
      case 1
      then obtain post where "c # cs = k @ post" by (auto simp: startsWith_iff)
      then have "c # cs = [] @ k @ post" by simp
      then show ?thesis by blast
    next
      case 2
      with Cons obtain pre post where "cs = pre @ k @ post" by auto
      then have "c # cs = (c # pre) @ k @ post" by simp
      then show ?thesis by blast
    qed
  next
    assume "\<exists>pre post. c # cs = pre @ k @ post"
    then obtain pre post where eq: "c # cs = pre @ k @ post" by auto
    show "str_includes (c # cs) k"
    proof (cases pre)
      case Nil
      with eq have "startsWith (c # cs) k" by (auto simp: startsWith_iff)
      then show ?thesis by simp
    next
      case (Cons p pre')
      with eq have "cs = pre' @ k @ post" by simp
      with Cons.IH have "str_includes cs k" by blast
      then show ?thesis by simp
    qed
  qed
qed

subsection \<open>Shorts ratio\<close>

lemma shortFlag_iff:
  "shortFlag v \<longleftrightarrow>
     (0 < videoDurationSeconds v \<and> videoDurationSeconds v < 60)
     \<or> (\<exists>pre post. videoTitleLower v = pre @ ''short'' @ post)"
  by (simp add: shortFlag_def Let_def str_includes_iff)

text \<open>
  C1, as amended. \<open>shortsRatio\<close> is the fraction of the sample videos that are flagged
  short, 0 for the empty sample, and a video is flagged exactly when its parsed duration
  is strictly between 0 and 60 seconds or its title, in lower case, contains \<open>short\<close>. A
  duration that is missing or does not parse is 0 seconds and does not flag the video.
\<close>

theorem shortsRatio_fraction:
  "shortsRatio vs =
     (if vs = [] then 0
      else of_nat (length (filter (\<lambda>v. (0 < videoDurationSeconds v \<and> videoDurationSeconds v < 60)
                                         \<or> (\<exists>pre post. videoTitleLower v = pre @ ''short'' @ post)) vs))
           / of_nat (length vs))"
proof -
  have "shortFlag = (\<lambda>v. (0 < videoDurationSeconds v \<and> videoDurationSeconds v < 60)
                          \<or> (\<exists>pre post. videoTitleLower v = pre @ ''short'' @ post))"
    by (rule ext) (rule shortFlag_iff)
  then show ?thesis
    by (simp add: shortsRatio_def Let_def comp_def)
qed

text \<open>
  C1 as stated fails on a live broadcast: its duration code \<open>P0D\<close> parses to 0 seconds,
  which is under 60, so the specification counts it short and gives the ratio 1; the
  program gives 0.
\<close>

theorem shortsRatio_zero_duration_counterexample:
  "videoDurationSeconds live_video = 0 \<and> spec_shortsRatio [live_video] = 1
   \<and> shortsRatio [live_video] = 0"
  by code_simp

text \<open>Two videos of five under a minute give 0.4, as in the specification's example.\<close>

lemma shortsRatio_two_of_five: "shortsRatio five_videos = 2 / 5"
  by code_simp

subsection \<open>Average views\<close>

lemma Math_round_bounds: "of_int (Math_round x) - 1 / 2 \<le> x \<and> x < of_int (Math_round x) + 1 / 2"
proof -
  have "of_int \<lfloor>x + 1 / 2\<rfloor> \<le> x + 1 / 2" "x + 1 / 2 < of_int \<lfloor>x + 1 / 2\<rfloor> + 1"
    by linarith+
  then show ?thesis unfolding Math_round_def by linarith
qed

lemma three_videos_views: "map videoViewCount three_videos = [1000, 2000, 3000]"
  by code_simp

lemma three_videos_avg: "avgViews three_videos = 2000"
  by code_simp

lemma three_videos_exact: "exactInDoubles three_videos"
proof -
  have "map (\<lambda>v. \<bar>videoViewCount v\<bar>) three_videos = map abs (map videoViewCount three_videos)"
    by simp
  then have counts: "map (\<lambda>v. \<bar>videoViewCount v\<bar>) three_videos = [1000, 2000, 3000]"
    by (simp only: three_videos_views) simp
  have "length three_videos = 3"
    by (simp add: three_videos_def)
  with counts show ?thesis
    by (simp add: exactInDoubles_def)
qed

text \<open>
  C6. On every sample whose view counts the doubles of the program add up exactly
  (\<open>exactInDoubles\<close>: the absolute values of the counts and the number of videos sum to
  at most \<open>2^52\<close>): \<open>avgViews\<close> of the empty sample is 0; of any other sample it is the
  integer nearest to the mean of the view counts, a half rounded up (the mean lies in
  the half-open interval of length 1 around it); a video without statistics, or whose
  statistics have no view count, counts 0 views; and the sample with the view counts
  1000, 2000 and 3000 has \<open>avgViews = 2000\<close>.
\<close>

theorem avgViews_rounded_mean:
  assumes "exactInDoubles vs"
  shows "(vs = [] \<longrightarrow> avgViews vs = 0)
   \<and> (vs \<noteq> [] \<longrightarrow>
        of_int (avgViews vs) - 1 / 2
          \<le> (of_int (sum_list (map videoViewCount vs)) / of_nat (length vs) :: rat)
        \<and> (of_int (sum_list (map videoViewCount vs)) / of_nat (length vs) :: rat)
          < of_int (avgViews vs) + 1 / 2)
   \<and> (item_statistics v = None \<longrightarrow> videoViewCount v = 0)
   \<and> (item_statistics w = Some stt \<and> viewCount stt = None \<longrightarrow> videoViewCount w = 0)
   \<and> exactInDoubles three_videos
   \<and> map videoViewCount three_videos = [1000, 2000, 3000]
   \<and> avgViews three_videos = 2000"
proof -
  have empty_sample: "vs = [] \<longrightarrow> avgViews vs = 0"
    by (simp add: avgViews_def)
  have nearest: "vs \<noteq> [] \<longrightarrow>
        of_int (avgViews vs) - 1 / 2
          \<le> (of_int (sum_list (map videoViewCount vs)) / of_nat (length vs) :: rat)
        \<and> (of_int (sum_list (map videoViewCount vs)) / of_nat (length vs) :: rat)
          < of_int (avgViews vs) + 1 / 2"
    using Math_round_bounds[of "of_int (sum_list (map videoViewCount vs)) / of_nat (length vs)"]
    by (simp add: avgViews_def Let_def)
  have missing: "(item_statistics v = None \<longrightarrow> videoViewCount v = 0)
   \<and> (item_statistics w = Some stt \<and> viewCount stt = None \<longrightarrow> videoViewCount w = 0)"
    by (auto simp: videoViewCount_def)
  from empty_sample nearest missing three_videos_exact three_videos_views three_videos_avg
  show ?thesis by blast
qed

theorem avgViews_rounded_mean_witness:
  "exactInDoubles [] \<and> avgViews [] = 0
   \<and> exactInDoubles three_videos
   \<and> three_videos \<noteq> []
   \<and> rat_of_int (avgViews three_videos) - 1 / 2 \<le> 2000
   \<and> 2000 < rat_of_int (avgViews three_videos) + 1 / 2
   \<and> videoViewCount (playlistItem ''v1'') = 0
   \<and> videoViewCount coach_channel = 0"
proof -
  have nonempty: "three_videos \<noteq> []" and len: "length three_videos = 3"
    by (simp_all add: three_videos_def)
  have no_stats: "item_statistics (playlistItem ''v1'') = None"
    by (simp add: playlistItem_def)
  have no_count: "item_statistics coach_channel
      = Some \<lparr>hiddenSubscriberCount = False, subscriberCount = Some ''50000'', viewCount = None\<rparr>
    \<and> viewCount \<lparr>hiddenSubscriberCount = False, subscriberCount = Some ''50000'', viewCount = None\<rparr> = None"
    by (simp add: coach_channel_def)
  have empty_exact: "exactInDoubles []"
    by (simp add: exactInDoubles_def)
  from avgViews_rounded_mean[of "[]" "playlistItem ''v1''" coach_channel
      "\<lparr>hiddenSubscriberCount = False, subscriberCount = Some ''50000'', viewCount = None\<rparr>",
      OF empty_exact]
  have empty_sample: "avgViews [] = 0"
    by simp
  from avgViews_rounded_mean[of three_videos "playlistItem ''v1''" coach_channel
      "\<lparr>hiddenSubscriberCount = False, subscriberCount = Some ''50000'', viewCount = None\<rparr>",
      OF three_videos_exact]
    nonempty no_stats no_count three_videos_exact empty_exact empty_sample
  show ?thesis by (simp add: three_videos_views len)
qed

subsection \<open>The example channel and its sample\<close>

lemma three_videos_sorted: "sortByPublishedAt three_videos = Inr three_videos"
  by code_simp

lemma three_videos_slice: "slice0 three_videos 12 = three_videos"
  by code_simp

lemma three_videos_no_shorts: "shortsRatio three_videos = 0"
  by code_simp

lemma coach_text_has_guru:
  "str_includes (combinedText coach_channel three_videos) (toLowerCase ''guru'')"
  by code_simp

lemma coach_text_has_coach:
  "str_includes (combinedText coach_channel three_videos) (toLowerCase ''coach'')"
  by code_simp

lemma empty_keyword_config_fields:
  "sampleSize empty_keyword_config = 12" "recentVideoWithinDays empty_keyword_config = 0"
  "allowShorts empty_keyword_config = False" "excludeKeywords empty_keyword_config = [Some []]"
  "includeKeywords empty_keyword_config = []" "avgViewsMin empty_keyword_config = 0"
  "avgViewsMax empty_keyword_config = None" "minSubscribers empty_keyword_config = 1000"
  "targetCountry empty_keyword_config = []" "sleepMs empty_keyword_config = 200"
  "apiKey empty_keyword_config = ''key''" "maxChannels empty_keyword_config = 1"
  by (simp_all add: empty_keyword_config_def default_config_def)

lemma guru_config_fields:
  "sampleSize guru_config = 12" "recentVideoWithinDays guru_config = 0"
  "allowShorts guru_config = False" "excludeKeywords guru_config = [Some ''guru'']"
  "includeKeywords guru_config = [Some ''coach'']" "avgViewsMin guru_config = 0"
  "avgViewsMax guru_config = None" "minSubscribers guru_config = 1000"
  "targetCountry guru_config = []" "sleepMs guru_config = 200"
  by (simp_all add: guru_config_def default_config_def)

lemma coach_saved:
  "sampleGate empty_keyword_config t cid coach_channel three_videos
     = Saved (assembleRecord empty_keyword_config t cid coach_channel three_videos)"
  by (simp add: sampleGate_def three_videos_sorted three_videos_slice three_videos_no_shorts
        empty_keyword_config_fields hasRecentWithin_def excluded_def includedByKeyword_def
        three_videos_avg)

subsection \<open>Recency, at an example\<close>

theorem recency_disabled_witness:
  "hasRecentWithin empty_keyword_config 1700000000000 [] = Inr True
   \<and> sampleGate empty_keyword_config 1700000000000 ''UCcoach'' coach_channel three_videos
       \<noteq> NoRecentVideoWithinTimeframe"
proof -
  have off: "recentVideoWithinDays empty_keyword_config = 0"
    by (rule empty_keyword_config_fields)
  from recency_disabled[where cfg=empty_keyword_config and now=1700000000000
      and sampleVideos="[]" and cid="''UCcoach''" and ch=coach_channel and videos=three_videos,
      OF off]
  show ?thesis by simp
qed

subsection \<open>The retry loop of the client\<close>

text \<open>One pass through the body of the loop, by what the fetch comes to.\<close>

lemma loop_exit: "\<not> a \<le> m \<Longrightarrow> youtubeApiRequest_loop remote req m a st = (Undefined, st)"
  by (subst youtubeApiRequest_loop.simps) simp

lemma loop_ok:
  "a \<le> m \<Longrightarrow> remote (fetches st) req = Ok_json body \<Longrightarrow>
     youtubeApiRequest_loop remote req m a st = (Json body, st\<lparr>fetches := Suc (fetches st)\<rparr>)"
  by (subst youtubeApiRequest_loop.simps) (simp add: fetchLib_def)

lemma loop_rate_limited:
  "a \<le> m \<Longrightarrow> remote (fetches st) req = Not_ok status body_text \<Longrightarrow> status = 403 \<or> status = 429 \<Longrightarrow>
     youtubeApiRequest_loop remote req m a st
       = youtubeApiRequest_loop remote req m (a + 1)
           (sleep (1000 * 2 ^ (a + 1)) (st\<lparr>fetches := Suc (fetches st)\<rparr>))"
  by (subst youtubeApiRequest_loop.simps) (simp add: fetchLib_def)

lemma loop_status_retry:
  "a < m \<Longrightarrow> remote (fetches st) req = Not_ok status body_text \<Longrightarrow> \<not> (status = 403 \<or> status = 429) \<Longrightarrow>
     youtubeApiRequest_loop remote req m a st
       = youtubeApiRequest_loop remote req m (a + 1)
           (sleep (1000 * 2 ^ (a + 1)) (st\<lparr>fetches := Suc (fetches st)\<rparr>))"
  by (subst youtubeApiRequest_loop.simps) (simp add: fetchLib_def)

lemma loop_status_throw:
  "remote (fetches st) req = Not_ok status body_text \<Longrightarrow> \<not> (status = 403 \<or> status = 429) \<Longrightarrow>
     youtubeApiRequest_loop remote req m m st
       = (Thrown (YouTubeApiError status body_text), st\<lparr>fetches := Suc (fetches st)\<rparr>)"
  by (subst youtubeApiRequest_loop.simps) (simp add: fetchLib_def)

lemma loop_rejected_retry:
  "a < m \<Longrightarrow> remote (fetches st) req = Rejected msg \<Longrightarrow>
     youtubeApiRequest_loop remote req m a st
       = youtubeApiRequest_loop remote req m (a + 1)
           (sleep (1000 * 2 ^ (a + 1)) (st\<lparr>fetches := Suc (fetches st)\<rparr>))"
  by (subst youtubeApiRequest_loop.simps) (simp add: fetchLib_def)

lemma loop_rejected_throw:
  "remote (fetches st) req = Rejected msg \<Longrightarrow>
     youtubeApiRequest_loop remote req m m st
       = (Thrown (FetchError msg), st\<lparr>fetches := Suc (fetches st)\<rparr>)"
  by (subst youtubeApiRequest_loop.simps) (simp add: fetchLib_def)

lemma once429_run:
  "youtubeApiRequest once429 ''key'' ''search'' [] freshClient
     = (Json emptyPage, \<lparr>fetches = 2, sleeps = [2000]\<rparr>)"
  by (simp add: youtubeApiRequest_def youtubeApiRequest_loop.simps once429_def fetchLib_def
        sleep_def freshClient_def)

text \<open>
  A run of rejected fetches ends in the error of the last one, thrown to the caller
  after the third retry.
\<close>

lemma rejected_exhaustion_throws:
  "youtubeApiRequest alwaysRejected ''key'' ''channels'' [] freshClient
     = (Thrown (FetchError ''socket hang up''), \<lparr>fetches = 4, sleeps = [2000, 4000, 8000]\<rparr>)"
  by (simp add: youtubeApiRequest_def youtubeApiRequest_loop.simps alwaysRejected_def fetchLib_def
        sleep_def freshClient_def)

text \<open>
  Not so when the last allowed attempt is answered 403 or 429: the branch for these two
  statuses has no test of \<open>attempt > maxRetries\<close>, it sleeps once more and leaves the
  loop, and the function returns \<open>undefined\<close>.
\<close>

lemma last_attempt_rate_limited:
  assumes "remote (fetches st) req = Not_ok status body_text" and "status = 403 \<or> status = 429"
  shows "youtubeApiRequest_loop remote req maxRetries maxRetries st
           = (Undefined, sleep (1000 * 2 ^ (maxRetries + 1)) (st\<lparr>fetches := Suc (fetches st)\<rparr>))"
  using assms by (simp add: loop_rate_limited loop_exit)

text \<open>
  C2 says that a request whose attempts all fail raises an error that carries the last
  message. The code breaks this on a service that answers every attempt with 429: after
  four fetches and four delays the request returns \<open>undefined\<close>, and no error reaches
  the caller.
\<close>

theorem rate_limited_exhaustion_returns_undefined:
  "youtubeApiRequest always429 ''key'' ''channels'' [] freshClient
     = (Undefined, \<lparr>fetches = 4, sleeps = [2000, 4000, 8000, 16000]\<rparr>)"
  by (simp add: youtubeApiRequest_def youtubeApiRequest_loop.simps always429_def fetchLib_def
        sleep_def freshClient_def)

text \<open>
  The delays of the loop from attempt \<open>a\<close>, and the number of fetches, by the way the
  loop ends.
\<close>

lemma loop_backoff:
  "a \<le> m + 1 \<Longrightarrow> youtubeApiRequest_loop remote req m a st = (r, st') \<Longrightarrow>
     \<exists>k. sleeps st' = sleeps st @ backoffs a k
        \<and> (case r of Undefined \<Rightarrow> fetches st' = fetches st + k \<and> a + k = m + 1
            | Json body \<Rightarrow> fetches st' = fetches st + k + 1 \<and> a + k \<le> m
            | Thrown e \<Rightarrow> fetches st' = fetches st + k + 1 \<and> a + k = m)"
proof (induction "Suc m - a" arbitrary: a st)
  case 0
  then have "a = m + 1" by simp
  with "0.prems" have "r = Undefined" "st' = st" by (simp_all add: loop_exit)
  with \<open>a = m + 1\<close> show ?case by (intro exI[of _ 0]) simp
next
  case (Suc n)
  then have am: "a \<le> m" by simp
  let ?st1 = "st\<lparr>fetches := Suc (fetches st)\<rparr>"
  let ?st2 = "sleep (1000 * 2 ^ (a + 1)) ?st1"
  have step: ?case if rec: "youtubeApiRequest_loop remote req m (a + 1) ?st2 = (r, st')"
  proof -
    from Suc.hyps(2) have "n = Suc m - (a + 1)" by simp
    from Suc.hyps(1)[OF this _ rec] am obtain k where k:
      "sleeps st' = sleeps ?st2 @ backoffs (a + 1) k"
      "(case r of Undefined \<Rightarrow> fetches st' = fetches ?st2 + k \<and> a + 1 + k = m + 1
            | Json body \<Rightarrow> fetches st' = fetches ?st2 + k + 1 \<and> a + 1 + k \<le> m
            | Thrown e \<Rightarrow> fetches st' = fetches ?st2 + k + 1 \<and> a + 1 + k = m)" by auto
    have "sleeps st' = sleeps st @ backoffs a (Suc k)"
      using k(1) by (simp add: sleep_def)
    moreover have "(case r of Undefined \<Rightarrow> fetches st' = fetches st + Suc k \<and> a + Suc k = m + 1
            | Json body \<Rightarrow> fetches st' = fetches st + Suc k + 1 \<and> a + Suc k \<le> m
            | Thrown e \<Rightarrow> fetches st' = fetches st + Suc k + 1 \<and> a + Suc k = m)"
      using k(2) by (cases r) (auto simp: sleep_def)
    ultimately show ?thesis by blast
  qed
  show ?case
  proof (cases "remote (fetches st) req")
    case (Ok_json body)
    with Suc.prems am have "r = Json body" "st' = ?st1" by (simp_all add: loop_ok)
    with am show ?thesis by (intro exI[of _ 0]) simp
  next
    case (Not_ok status t)
    show ?thesis
    proof (cases "status = 403 \<or> status = 429")
      case True
      with Suc.prems am Not_ok show ?thesis by (intro step) (simp add: loop_rate_limited)
    next
      case other: False
      show ?thesis
      proof (cases "a < m")
        case True
        with Suc.prems Not_ok other show ?thesis by (intro step) (simp add: loop_status_retry)
      next
        case False
        with am have "a = m" by simp
        with Suc.prems Not_ok other have "r = Thrown (YouTubeApiError status t)" "st' = ?st1"
          by (simp_all add: loop_status_throw)
        with \<open>a = m\<close> show ?thesis by (intro exI[of _ 0]) simp
      qed
    qed
  next
    case (Rejected msg)
    show ?thesis
    proof (cases "a < m")
      case True
      with Suc.prems Rejected show ?thesis by (intro step) (simp add: loop_rejected_retry)
    next
      case False
      with am have "a = m" by simp
      with Suc.prems Rejected have "r = Thrown (FetchError msg)" "st' = ?st1"
        by (simp_all add: loop_rejected_throw)
      with \<open>a = m\<close> show ?thesis by (intro exI[of _ 0]) simp
    qed
  qed
qed

lemma backoffs_three: "k \<le> 3 \<Longrightarrow> backoffs 0 k = take k [2000, 4000, 8000]"
proof -
  assume "k \<le> 3"
  then consider "k = 0" | "k = Suc 0" | "k = Suc (Suc 0)" | "k = Suc (Suc (Suc 0))"
    by linarith
  then show ?thesis by cases simp_all
qed

lemma backoffs_four: "k = 4 \<Longrightarrow> backoffs 0 k = [2000, 4000, 8000] @ [16000]"
proof -
  assume "k = 4"
  then have "k = Suc (Suc (Suc (Suc 0)))" by simp
  then show ?thesis by simp
qed

text \<open>
  C4, as amended. A request makes at most four fetches, the first attempt and at most
  three retries, and the delay before the \<open>n\<close>-th retry is \<open>1000 * 2^n\<close> milliseconds: 2, 4
  and 8 seconds. With \<open>k\<close> retries the request adds the first \<open>k\<close> of these delays to the
  log; it adds nothing else when it returns a body or throws, and an error is thrown
  only after the third retry.
\<close>

theorem retry_backoff_schedule:
  assumes "youtubeApiRequest remote key p ps st = (r, st')"
  shows "\<exists>k extra. k \<le> 3 \<and> fetches st' = fetches st + k + 1
           \<and> sleeps st' = sleeps st @ take k [2000, 4000, 8000] @ extra
           \<and> (r \<noteq> Undefined \<longrightarrow> extra = [])
           \<and> (\<forall>e. r = Thrown e \<longrightarrow> k = 3)"
proof -
  from assms
  have "youtubeApiRequest_loop remote \<lparr>path = p, params = ps @ [(''key'', PStr key)]\<rparr> 3 0 st = (r, st')"
    by (simp add: youtubeApiRequest_def)
  from loop_backoff[OF _ this] obtain k where k: "sleeps st' = sleeps st @ backoffs 0 k"
    "(case r of Undefined \<Rightarrow> fetches st' = fetches st + k \<and> 0 + k = 3 + 1
            | Json body \<Rightarrow> fetches st' = fetches st + k + 1 \<and> 0 + k \<le> 3
            | Thrown e \<Rightarrow> fetches st' = fetches st + k + 1 \<and> 0 + k = 3)" by auto
  show ?thesis
  proof (cases r)
    case (Json body)
    with k have "k \<le> 3" "fetches st' = fetches st + k + 1"
      "sleeps st' = sleeps st @ take k [2000, 4000, 8000] @ []"
      by (simp_all add: backoffs_three)
    with Json show ?thesis by blast
  next
    case (Thrown e)
    with k have "k \<le> 3" "fetches st' = fetches st + k + 1"
      "sleeps st' = sleeps st @ take k [2000, 4000, 8000] @ []" "k = 3"
      by (simp_all add: backoffs_three)
    with Thrown show ?thesis by blast
  next
    case Undefined
    with k have "k = 4" "fetches st' = fetches st + 3 + 1" by simp_all
    with k(1) have "sleeps st' = sleeps st @ take 3 [2000, 4000, 8000] @ [16000]"
      by (simp only: backoffs_four) simp
    with \<open>fetches st' = fetches st + 3 + 1\<close> Undefined show ?thesis
      by (intro exI[of _ 3] exI[of _ "[16000]"]) simp
  qed
qed

theorem retry_backoff_schedule_witness:
  "sleeps (snd (youtubeApiRequest once429 ''key'' ''search'' [] freshClient)) = [2000]
   \<and> fetches (snd (youtubeApiRequest once429 ''key'' ''search'' [] freshClient)) = 2"
proof -
  from retry_backoff_schedule[OF once429_run] show ?thesis
    by (simp add: once429_run)
qed

text \<open>
  C4 as stated fails at the first retry: after one 429 the loop sleeps 2000
  milliseconds, not 1000, before the attempt that succeeds.
\<close>

theorem first_retry_delay_counterexample:
  "youtubeApiRequest once429 ''key'' ''search'' [] freshClient
     = (Json emptyPage, \<lparr>fetches = 2, sleeps = [2000]\<rparr>)
   \<and> sleeps (snd (youtubeApiRequest once429 ''key'' ''search'' [] freshClient)) \<noteq> [1000]"
  by (simp add: once429_run)

subsection \<open>Playlist pagination\<close>

lemma pushVideoIds_bound:
  "int (length ids) < limit \<Longrightarrow> int (length (pushVideoIds limit ids its)) \<le> limit"
proof (induction its arbitrary: ids)
  case Nil
  then show ?case by simp
next
  case (Cons it its)
  then show ?case
    by (auto simp: Let_def split: option.splits)
qed

text \<open>
  A request that returns a body made at least one fetch, and the body is what the
  service answered to its last fetch.
\<close>

lemma loop_json:
  "youtubeApiRequest_loop remote req m a st = (Json body, st') \<Longrightarrow>
     fetches st < fetches st' \<and> remote (fetches st' - 1) req = Ok_json body"
proof (induction "Suc m - a" arbitrary: a st)
  case 0
  then have "\<not> a \<le> m" by simp
  with "0.prems" show ?case by (simp add: loop_exit)
next
  case (Suc n)
  then have am: "a \<le> m" by simp
  let ?st1 = "st\<lparr>fetches := Suc (fetches st)\<rparr>"
  let ?st2 = "sleep (1000 * 2 ^ (a + 1)) ?st1"
  have step: ?case if rec: "youtubeApiRequest_loop remote req m (a + 1) ?st2 = (Json body, st')"
  proof -
    from Suc.hyps(2) have "n = Suc m - (a + 1)" by simp
    from Suc.hyps(1)[OF this rec] show ?thesis by (simp add: sleep_def)
  qed
  show ?case
  proof (cases "remote (fetches st) req")
    case (Ok_json b)
    with Suc.prems am show ?thesis by (auto simp: loop_ok)
  next
    case (Not_ok status t)
    show ?thesis
    proof (cases "status = 403 \<or> status = 429")
      case True
      with Suc.prems am Not_ok show ?thesis by (intro step) (simp add: loop_rate_limited)
    next
      case other: False
      show ?thesis
      proof (cases "a < m")
        case True
        with Suc.prems Not_ok other show ?thesis by (intro step) (simp add: loop_status_retry)
      next
        case False
        with am have "a = m" by simp
        with Suc.prems Not_ok other show ?thesis by (simp add: loop_status_throw)
      qed
    qed
  next
    case (Rejected msg)
    show ?thesis
    proof (cases "a < m")
      case True
      with Suc.prems Rejected show ?thesis by (intro step) (simp add: loop_rejected_retry)
    next
      case False
      with am have "a = m" by simp
      with Suc.prems Rejected show ?thesis by (simp add: loop_rejected_throw)
    qed
  qed
qed

lemma request_json:
  "youtubeApiRequest remote key p ps st = (Json body, st') \<Longrightarrow>
     fetches st < fetches st' \<and> (\<exists>req. remote (fetches st' - 1) req = Ok_json body)"
  unfolding youtubeApiRequest_def by (drule loop_json) blast

text \<open>
  Whenever the loop returns, from fewer than \<open>limit\<close> ids at the head of its body, it
  returns at most \<open>limit\<close> ids.
\<close>

lemma playlist_loop_bound:
  assumes run: "getPlaylistVideoIds_loop remote cfg playlistId limit ids pageToken st = Some y"
  shows "int (length ids) < limit \<longrightarrow> int (length (fst y)) \<le> limit"
proof (rule getPlaylistVideoIds_loop.raw_induct[where P="\<lambda>remote cfg playlistId limit ids pageToken st y.
          int (length ids) < limit \<longrightarrow> int (length (fst y)) \<le> limit", OF _ run], goal_cases)
  case (1 loop remote cfg playlistId limit ids pageToken st y)
  note IH = 1(1) and body = 1(2)
  show ?case
  proof
    assume lt: "int (length ids) < limit"
    obtain r st1 where req: "youtubeApiRequest remote (apiKey cfg) ''playlistItems''
            [(''part'', PStr ''contentDetails,snippet''),
             (''playlistId'', PStr playlistId),
             (''maxResults'', PNum (min 50 (limit - int (length ids)))),
             (''pageToken'', if truthy pageToken then PStr (the pageToken) else PUndefined)] st
          = (r, st1)" by (rule prod.exhaust)
    show "int (length (fst y)) \<le> limit"
    proof (cases r)
      case (Json resp)
      let ?ids1 = "pushVideoIds limit ids (case items resp of None \<Rightarrow> [] | Some its \<Rightarrow> its)"
      have cap: "int (length ?ids1) \<le> limit" using lt by (rule pushVideoIds_bound)
      show ?thesis
      proof (cases "truthy (nextPageToken resp) \<and> int (length ?ids1) < limit")
        case True
        with body req Json
        have "loop remote cfg playlistId limit ?ids1 (nextPageToken resp) (sleep (sleepMs cfg) st1) = Some y"
          by (simp add: Let_def)
        from IH[OF this] True show ?thesis by simp
      next
        case False
        with body req Json have "fst y = ?ids1" by (auto simp: Let_def)
        with cap show ?thesis by simp
      qed
    next
      case Undefined
      with body req lt show ?thesis by auto
    next
      case (Thrown e)
      with body req lt show ?thesis by auto
    qed
  qed
qed

text \<open>When the pagination of the service ends, the loop returns.\<close>

lemma playlist_loop_returns:
  assumes "pagesEnd remote n"
  shows "\<exists>y. getPlaylistVideoIds_loop remote cfg playlistId limit ids pageToken st = Some y"
proof (induction "n - fetches st" arbitrary: ids pageToken st rule: less_induct)
  case less
  obtain r st1 where req: "youtubeApiRequest remote (apiKey cfg) ''playlistItems''
            [(''part'', PStr ''contentDetails,snippet''),
             (''playlistId'', PStr playlistId),
             (''maxResults'', PNum (min 50 (limit - int (length ids)))),
             (''pageToken'', if truthy pageToken then PStr (the pageToken) else PUndefined)] st
          = (r, st1)" by (rule prod.exhaust)
  show ?case
  proof (cases r)
    case (Json resp)
    let ?ids1 = "pushVideoIds limit ids (case items resp of None \<Rightarrow> [] | Some its \<Rightarrow> its)"
    let ?st2 = "sleep (sleepMs cfg) st1"
    from request_json[OF req[unfolded Json]] obtain rq where
      adv: "fetches st < fetches st1" and page: "remote (fetches st1 - 1) rq = Ok_json resp" by blast
    show ?thesis
    proof (cases "truthy (nextPageToken resp) \<and> int (length ?ids1) < limit")
      case True
      with page assms have "\<not> n \<le> fetches st1 - 1" unfolding pagesEnd_def by blast
      with adv have "n - fetches ?st2 < n - fetches st" by (simp add: sleep_def)
      from less[OF this] obtain y where
        "getPlaylistVideoIds_loop remote cfg playlistId limit ?ids1 (nextPageToken resp) ?st2 = Some y"
        by blast
      with True req Json show ?thesis
        by (subst getPlaylistVideoIds_loop.simps) (simp add: Let_def)
    next
      case False
      with req Json show ?thesis
        by (subst getPlaylistVideoIds_loop.simps) (auto simp: Let_def)
    qed
  next
    case Undefined
    with req show ?thesis by (subst getPlaylistVideoIds_loop.simps) simp
  next
    case (Thrown e)
    with req show ?thesis by (subst getPlaylistVideoIds_loop.simps) simp
  qed
qed

lemma onePage_request:
  "youtubeApiRequest onePageRemote k p ps st = (Json twoItemPage, st\<lparr>fetches := Suc (fetches st)\<rparr>)"
  by (simp add: youtubeApiRequest_def loop_ok onePageRemote_def)

lemma onePage_limit_one:
  "getPlaylistVideoIds onePageRemote default_config ''UUcoach'' 1 freshClient
     = Some ([''v1''], \<lparr>fetches = 1, sleeps = [200]\<rparr>)"
  by (simp add: getPlaylistVideoIds_def getPlaylistVideoIds_loop.simps onePage_request
        twoItemPage_def playlistItem_def sleep_def freshClient_def default_config_def)

text \<open>
  The loop follows the continuation token of a page while fewer than \<open>limit\<close> ids are
  collected, and stops at a page without a token or at the limit: on the playlist of
  two pages it makes two fetches for a limit of 12, and one for a limit of 1.
\<close>

lemma playlist_loop_step:
  assumes "youtubeApiRequest remote (apiKey cfg) ''playlistItems''
             [(''part'', PStr ''contentDetails,snippet''),
              (''playlistId'', PStr playlistId),
              (''maxResults'', PNum (min 50 (limit - int (length ids)))),
              (''pageToken'', if truthy pageToken then PStr (the pageToken) else PUndefined)] st
           = (Json resp, st1)"
  shows "getPlaylistVideoIds_loop remote cfg playlistId limit ids pageToken st
           = (let ids1 = pushVideoIds limit ids (case items resp of Some its \<Rightarrow> its | None \<Rightarrow> []);
                  st2 = sleep (sleepMs cfg) st1
              in if truthy (nextPageToken resp) \<and> int (length ids1) < limit
                 then getPlaylistVideoIds_loop remote cfg playlistId limit ids1 (nextPageToken resp) st2
                 else Some (ids1, st2))"
  using assms by (subst getPlaylistVideoIds_loop.simps) simp

lemma default_config_pacing: "sleepMs default_config = 200"
  by (simp add: default_config_def)

lemma twoPages_request:
  "youtubeApiRequest twoPagesRemote k p ps \<lparr>fetches = 0, sleeps = sl\<rparr>
     = (Json \<lparr>items = Some [playlistItem ''v1''], nextPageToken = Some ''page2''\<rparr>,
        \<lparr>fetches = Suc 0, sleeps = sl\<rparr>)"
  "youtubeApiRequest twoPagesRemote k p ps \<lparr>fetches = Suc 0, sleeps = sl\<rparr>
     = (Json \<lparr>items = Some [playlistItem ''v2''], nextPageToken = None\<rparr>,
        \<lparr>fetches = Suc (Suc 0), sleeps = sl\<rparr>)"
  by (simp_all add: youtubeApiRequest_def loop_ok twoPagesRemote_def)

lemma twoPages_followed:
  "getPlaylistVideoIds twoPagesRemote default_config ''UUcoach'' 12 freshClient
     = Some ([''v1'', ''v2''], \<lparr>fetches = 2, sleeps = [200, 200]\<rparr>)"
proof -
  have second_page:
    "getPlaylistVideoIds_loop twoPagesRemote default_config ''UUcoach'' 12 [''v1'']
       (Some ''page2'') \<lparr>fetches = Suc 0, sleeps = [200]\<rparr>
     = Some ([''v1'', ''v2''], \<lparr>fetches = 2, sleeps = [200, 200]\<rparr>)"
    by (subst playlist_loop_step[OF twoPages_request(2)])
      (simp add: playlistItem_def sleep_def default_config_pacing)
  show ?thesis
    unfolding getPlaylistVideoIds_def freshClient_def
    by (subst playlist_loop_step[OF twoPages_request(1)])
      (simp add: playlistItem_def sleep_def default_config_pacing second_page)
qed

lemma twoPages_limit_reached:
  "getPlaylistVideoIds twoPagesRemote default_config ''UUcoach'' 1 freshClient
     = Some ([''v1''], \<lparr>fetches = 1, sleeps = [200]\<rparr>)"
  unfolding getPlaylistVideoIds_def freshClient_def
  by (subst playlist_loop_step[OF twoPages_request(1)])
    (simp add: playlistItem_def sleep_def default_config_pacing)

text \<open>
  From fewer than \<open>limit\<close> ids, the \<open>for\<close> loop over a page leaves the first \<open>limit\<close> of the
  ids it had and the ids of the page.
\<close>

lemma pushVideoIds_take:
  "int (length ids) < limit \<Longrightarrow>
     pushVideoIds limit ids its = take (nat limit) (ids @ concat (map itemVideoIds its))"
proof (induction its arbitrary: ids)
  case Nil
  then show ?case by simp
next
  case (Cons it its)
  let ?ids1 = "ids @ itemVideoIds it"
  have one: "length (itemVideoIds it) \<le> 1"
    by (simp add: itemVideoIds_def split: option.splits)
  have ids1: "(case item_contentDetails it of
               Some cd \<Rightarrow> if truthy (videoId cd) then ids @ [the (videoId cd)] else ids
             | None \<Rightarrow> ids) = ?ids1"
    by (simp add: itemVideoIds_def split: option.splits)
  show ?case
  proof (cases "int (length ?ids1) \<ge> limit")
    case True
    with Cons.prems one have "length ?ids1 = nat limit" by simp
    then have "take (nat limit) (?ids1 @ concat (map itemVideoIds its)) = ?ids1"
      by simp
    with True show ?thesis
      by (simp add: ids1 del: take_append)
  next
    case False
    then have "int (length ?ids1) < limit" by simp
    from Cons.IH[OF this] False show ?thesis
      by (simp add: ids1)
  qed
qed

text \<open>
  On the service that answers by token, a request is one fetch, and one pass through
  the body of the \<open>do ... while\<close> reads the page of the token at its head.
\<close>

lemma service_request:
  "youtubeApiRequest (playlistService page) k p ps st
     = (Json (page (pageTokenOf \<lparr>path = p, params = ps @ [(''key'', PStr k)]\<rparr>)),
        st\<lparr>fetches := Suc (fetches st)\<rparr>)"
  by (simp add: youtubeApiRequest_def loop_ok playlistService_def)

lemma request_token:
  "truthy tok \<or> tok = None \<Longrightarrow>
   pageTokenOf \<lparr>path = p,
       params = [(''part'', a), (''playlistId'', b), (''maxResults'', c),
                 (''pageToken'', if truthy tok then PStr (the tok) else PUndefined)]
                @ [(''key'', d)]\<rparr> = tok"
  by (cases tok) (auto simp: pageTokenOf_def)

lemma service_step:
  assumes "truthy tok \<or> tok = None"
  shows "getPlaylistVideoIds_loop (playlistService page) cfg playlistId limit ids tok st
           = (let ids1 = pushVideoIds limit ids (case items (page tok) of Some its \<Rightarrow> its | None \<Rightarrow> []);
                  st2 = sleep (sleepMs cfg) (st\<lparr>fetches := Suc (fetches st)\<rparr>)
              in if truthy (nextPageToken (page tok)) \<and> int (length ids1) < limit
                 then getPlaylistVideoIds_loop (playlistService page) cfg playlistId limit ids1
                        (nextPageToken (page tok)) st2
                 else Some (ids1, st2))"
  by (subst getPlaylistVideoIds_loop.simps)
    (simp only: service_request request_token[OF assms] prod.case api_result.case)

lemma stopsFirstAt_0:
  "stopsFirstAt page limit ids tok 0
     \<longleftrightarrow> \<not> truthy (nextPageToken (page tok))
         \<or> limit \<le> int (length (ids @ pageVideoIds (page tok)))"
  by (simp add: stopsFirstAt_def)

lemma stopsFirstAt_Suc:
  "stopsFirstAt page limit ids tok (Suc k)
     \<longleftrightarrow> truthy (nextPageToken (page tok))
         \<and> int (length (ids @ pageVideoIds (page tok))) < limit
         \<and> stopsFirstAt page limit (ids @ pageVideoIds (page tok)) (nextPageToken (page tok)) k"
  by (auto simp: stopsFirstAt_def All_less_Suc2)

text \<open>
  On that service the loop returns exactly when some page is the first to stop it, and
  then with the first \<open>limit\<close> ids of the pages up to that one, after one fetch and one
  pacing delay per page.
\<close>

lemma service_follows:
  assumes "int (length ids) < limit" and "truthy tok \<or> tok = None"
    and "stopsFirstAt page limit ids tok k"
  shows "getPlaylistVideoIds_loop (playlistService page) cfg playlistId limit ids tok st
           = Some (take (nat limit) (ids @ idsThrough page tok k),
                   st\<lparr>fetches := fetches st + Suc k,
                      sleeps := sleeps st @ replicate (Suc k) (sleepMs cfg)\<rparr>)"
  using assms
proof (induction k arbitrary: ids tok st)
  case 0
  let ?all = "ids @ pageVideoIds (page tok)"
  have pushed: "pushVideoIds limit ids (case items (page tok) of Some its \<Rightarrow> its | None \<Rightarrow> [])
                  = take (nat limit) ?all"
    using pushVideoIds_take[OF "0.prems"(1)] by (simp add: pageVideoIds_def)
  from "0.prems"(3) have "\<not> truthy (nextPageToken (page tok)) \<or> limit \<le> int (length ?all)"
    by (simp add: stopsFirstAt_0)
  then have stop: "(truthy (nextPageToken (page tok))
                     \<and> int (length (take (nat limit) ?all)) < limit) = False"
    by auto
  show ?case
    by (subst service_step[OF "0.prems"(2)]) (simp only: pushed Let_def stop if_False, simp add: sleep_def)
next
  case (Suc k)
  let ?all = "ids @ pageVideoIds (page tok)"
  from Suc.prems(3) have tok': "truthy (nextPageToken (page tok))"
    and room: "int (length ?all) < limit"
    and rest: "stopsFirstAt page limit ?all (nextPageToken (page tok)) k"
    by (simp_all add: stopsFirstAt_Suc)
  have pushed: "pushVideoIds limit ids (case items (page tok) of Some its \<Rightarrow> its | None \<Rightarrow> [])
                  = ?all"
  proof -
    from room have "length ?all \<le> nat limit" by linarith
    then have "take (nat limit) ?all = ?all" by (rule take_all)
    with pushVideoIds_take[OF Suc.prems(1)] show ?thesis by (simp add: pageVideoIds_def del: take_append)
  qed
  from tok' have "truthy (nextPageToken (page tok)) \<or> nextPageToken (page tok) = None"
    by simp
  note IH = Suc.IH[OF room this rest]
  from tok' room show ?case
    by (subst service_step[OF Suc.prems(2)])
      (simp add: pushed Let_def IH sleep_def replicate_app_Cons_same del: take_append)
qed

lemma service_returns:
  assumes run: "getPlaylistVideoIds_loop remote cfg playlistId limit ids tok st = Some y"
  shows "remote = playlistService page \<longrightarrow> int (length ids) < limit \<longrightarrow> truthy tok \<or> tok = None
           \<longrightarrow> (\<exists>k. stopsFirstAt page limit ids tok k)"
proof (rule getPlaylistVideoIds_loop.raw_induct[where P="\<lambda>remote cfg playlistId limit ids tok st y.
          remote = playlistService page \<longrightarrow> int (length ids) < limit \<longrightarrow> truthy tok \<or> tok = None
           \<longrightarrow> (\<exists>k. stopsFirstAt page limit ids tok k)", OF _ run], goal_cases)
  case (1 loop remote cfg playlistId limit ids tok st y)
  note IH = 1(1) and body = 1(2)
  show ?case
  proof (intro impI)
    assume service: "remote = playlistService page" and lt: "int (length ids) < limit"
      and sent: "truthy tok \<or> tok = None"
    let ?all = "ids @ pageVideoIds (page tok)"
    have pushed: "pushVideoIds limit ids (case items (page tok) of Some its \<Rightarrow> its | None \<Rightarrow> [])
                  = take (nat limit) ?all"
      using pushVideoIds_take[OF lt] by (simp add: pageVideoIds_def)
    show "\<exists>k. stopsFirstAt page limit ids tok k"
    proof (cases "truthy (nextPageToken (page tok)) \<and> int (length ?all) < limit")
      case True
      then have "length ?all \<le> nat limit" by linarith
      then have same: "take (nat limit) ?all = ?all" by (rule take_all)
      from body True
      have "loop remote cfg playlistId limit ?all (nextPageToken (page tok))
              (sleep (sleepMs cfg) (st\<lparr>fetches := Suc (fetches st)\<rparr>)) = Some y"
        unfolding service
        by (simp only: service_request request_token[OF sent] prod.case api_result.case
              pushed same Let_def simp_thms if_True)
      from IH[OF this] service True obtain k where
        "stopsFirstAt page limit ?all (nextPageToken (page tok)) k"
        by auto
      with True have "stopsFirstAt page limit ids tok (Suc k)"
        by (simp add: stopsFirstAt_Suc)
      then show ?thesis ..
    next
      case False
      then have "stopsFirstAt page limit ids tok 0"
        by (auto simp: stopsFirstAt_0)
      then show ?thesis ..
    qed
  qed
qed

lemma uploadsPages_stops:
  "stopsFirstAt uploadsPages 12 [] None (Suc 0)" "stopsFirstAt uploadsPages 2 [] None (Suc 0)"
  "stopsFirstAt uploadsPages 1 [] None 0"
  by (simp_all add: stopsFirstAt_def uploadsPages_def pageVideoIds_def itemVideoIds_def
        playlistItem_def)

lemma uploadsPages_ids:
  "idsThrough uploadsPages None (Suc 0) = [''v1'', ''v2'', ''v3'']"
  "idsThrough uploadsPages None 0 = [''v1'']"
  by (simp_all add: uploadsPages_def pageVideoIds_def itemVideoIds_def playlistItem_def)

lemma twoPages_end: "pagesEnd twoPagesRemote (Suc 0)"
  by (simp add: pagesEnd_def twoPagesRemote_def)

text \<open>
  C9. For a limit of at least 1, which every sample size of the specification is:
  whenever the paginated fetch returns, it returns at most \<open>limit\<close> video ids, also when
  a page holds more items than were asked for, and it does return when the pagination
  of the service ends. On a service that answers every request with the page its token
  names, the fetch follows the continuation tokens from the first page on until the
  limit is reached or no token remains: where page number \<open>k\<close> is the first that carries
  no token or brings the ids to the limit, it returns the first \<open>limit\<close> ids of the pages
  number 0 to \<open>k\<close> after \<open>k + 1\<close> fetches, one for each of these pages and none beyond;
  and it returns only where there is such a page.
\<close>

theorem playlist_cap:
  assumes "1 \<le> limit"
  shows "(\<forall>ids st'. getPlaylistVideoIds remote cfg playlistId limit st = Some (ids, st')
            \<longrightarrow> int (length ids) \<le> limit)
       \<and> (pagesEnd remote n \<longrightarrow>
            (\<exists>ids st'. getPlaylistVideoIds remote cfg playlistId limit st = Some (ids, st')
               \<and> int (length ids) \<le> limit))
       \<and> (stopsFirstAt page limit [] None k \<longrightarrow>
            getPlaylistVideoIds (playlistService page) cfg playlistId limit st
              = Some (take (nat limit) (idsThrough page None k),
                      st\<lparr>fetches := fetches st + Suc k,
                         sleeps := sleeps st @ replicate (Suc k) (sleepMs cfg)\<rparr>))
       \<and> ((\<exists>y. getPlaylistVideoIds (playlistService page) cfg playlistId limit st = Some y)
            \<longrightarrow> (\<exists>k. stopsFirstAt page limit [] None k))"
proof -
  from assms have room: "int (length ([] :: string list)) < limit"
    by simp
  have first: "truthy None \<or> (None :: string option) = None"
    by simp
  have cap: "int (length ids) \<le> limit"
    if "getPlaylistVideoIds remote cfg playlistId limit st = Some (ids, st')" for ids st'
    using that assms playlist_loop_bound[of remote cfg playlistId limit "[]" None st "(ids, st')"]
    by (simp add: getPlaylistVideoIds_def)
  have "\<exists>ids st'. getPlaylistVideoIds remote cfg playlistId limit st = Some (ids, st')"
    if "pagesEnd remote n"
    using playlist_loop_returns[OF that, of cfg playlistId limit "[]" None st]
    by (auto simp: getPlaylistVideoIds_def)
  with cap have returns: "pagesEnd remote n \<longrightarrow>
            (\<exists>ids st'. getPlaylistVideoIds remote cfg playlistId limit st = Some (ids, st')
               \<and> int (length ids) \<le> limit)"
    by blast
  have follows: "stopsFirstAt page limit [] None k \<longrightarrow>
            getPlaylistVideoIds (playlistService page) cfg playlistId limit st
              = Some (take (nat limit) (idsThrough page None k),
                      st\<lparr>fetches := fetches st + Suc k,
                         sleeps := sleeps st @ replicate (Suc k) (sleepMs cfg)\<rparr>)"
    using service_follows[OF room first, of page k cfg playlistId st]
    by (simp add: getPlaylistVideoIds_def)
  have only: "(\<exists>y. getPlaylistVideoIds (playlistService page) cfg playlistId limit st = Some y)
            \<longrightarrow> (\<exists>k. stopsFirstAt page limit [] None k)"
    using service_returns[of "playlistService page" cfg playlistId limit "[]" None st _ page]
      room first
    by (auto simp: getPlaylistVideoIds_def)
  from cap returns follows only show ?thesis
    by blast
qed

theorem playlist_cap_witness:
  "pagesEnd twoPagesRemote 1
   \<and> getPlaylistVideoIds twoPagesRemote default_config ''UUcoach'' 12 freshClient
       = Some ([''v1'', ''v2''], \<lparr>fetches = 2, sleeps = [200, 200]\<rparr>)
   \<and> stopsFirstAt uploadsPages 12 [] None 1
   \<and> getPlaylistVideoIds (playlistService uploadsPages) default_config ''UUcoach'' 12 freshClient
       = Some ([''v1'', ''v2'', ''v3''], \<lparr>fetches = 2, sleeps = [200, 200]\<rparr>)
   \<and> stopsFirstAt uploadsPages 2 [] None 1
   \<and> getPlaylistVideoIds (playlistService uploadsPages) default_config ''UUcoach'' 2 freshClient
       = Some ([''v1'', ''v2''], \<lparr>fetches = 2, sleeps = [200, 200]\<rparr>)
   \<and> stopsFirstAt uploadsPages 1 [] None 0
   \<and> getPlaylistVideoIds (playlistService uploadsPages) default_config ''UUcoach'' 1 freshClient
       = Some ([''v1''], \<lparr>fetches = 1, sleeps = [200]\<rparr>)"
proof -
  have twelve: "(1::int) \<le> 12" and two: "(1::int) \<le> 2" and one: "(1::int) \<le> 1"
    by simp_all
  from playlist_cap[where limit=12 and remote=twoPagesRemote and cfg=default_config
      and playlistId="''UUcoach''" and st=freshClient and n="Suc 0" and page=uploadsPages
      and k="Suc 0",
      OF twelve]
    twoPages_end uploadsPages_stops(1)
  have no_token_remains:
    "getPlaylistVideoIds (playlistService uploadsPages) default_config ''UUcoach'' 12 freshClient
       = Some ([''v1'', ''v2'', ''v3''], \<lparr>fetches = 2, sleeps = [200, 200]\<rparr>)"
    by (simp add: uploadsPages_ids freshClient_def default_config_pacing del: idsThrough.simps)
  from playlist_cap[where limit=2 and remote=twoPagesRemote and cfg=default_config
      and playlistId="''UUcoach''" and st=freshClient and n="Suc 0" and page=uploadsPages
      and k="Suc 0",
      OF two]
    uploadsPages_stops(2)
  have limit_reached:
    "getPlaylistVideoIds (playlistService uploadsPages) default_config ''UUcoach'' 2 freshClient
       = Some ([''v1'', ''v2''], \<lparr>fetches = 2, sleeps = [200, 200]\<rparr>)"
    by (simp add: uploadsPages_ids freshClient_def default_config_pacing del: idsThrough.simps)
  from playlist_cap[where limit=1 and remote=twoPagesRemote and cfg=default_config
      and playlistId="''UUcoach''" and st=freshClient and n="Suc 0" and page=uploadsPages
      and k=0,
      OF one]
    uploadsPages_stops(3)
  have not_followed:
    "getPlaylistVideoIds (playlistService uploadsPages) default_config ''UUcoach'' 1 freshClient
       = Some ([''v1''], \<lparr>fetches = 1, sleeps = [200]\<rparr>)"
    by (simp add: uploadsPages_ids freshClient_def default_config_pacing del: idsThrough.simps)
  from no_token_remains limit_reached not_followed twoPages_end twoPages_followed
    uploadsPages_stops
  show ?thesis
    by simp
qed

text \<open>
  The limit 0 is no sample size of the specification. There the body of the
  \<open>do ... while\<close> still runs once, and the first item of the page is pushed before the
  length is compared with the limit: one id is returned.
\<close>

lemma playlist_limit_zero:
  "getPlaylistVideoIds onePageRemote default_config ''UUcoach'' 0 freshClient
     = Some ([''v1''], \<lparr>fetches = 1, sleeps = [200]\<rparr>)"
  by (simp add: getPlaylistVideoIds_def getPlaylistVideoIds_loop.simps onePage_request
        twoItemPage_def playlistItem_def sleep_def freshClient_def default_config_def)

subsection \<open>The cut to maxChannels\<close>

lemma slice0_length: "0 \<le> n \<Longrightarrow> int (length (slice0 xs n)) \<le> n"
  by (simp add: slice0_def)

lemma afterChannel_results:
  "length (results (afterChannel cfg cid rn end_of_body)) \<le> Suc (length (results rn))"
  by (cases "(cfg, cid, rn, end_of_body)" rule: afterChannel.cases) auto

text \<open>
  The loop keeps the bound: from a state within the bound it ends within the bound,
  whatever candidates are left.
\<close>

lemma main_loop_cap:
  "int (length (results rn)) \<le> maxChannels cfg \<Longrightarrow> main_loop remote clock cfg cs rn = Some rn'
     \<Longrightarrow> int (length (results rn')) \<le> maxChannels cfg"
proof (induction cs arbitrary: rn)
  case Nil
  then show ?case by simp
next
  case (Cons cid rest)
  show ?case
  proof (cases "int (length (results rn)) < maxChannels cfg")
    case False
    with Cons.prems show ?thesis by simp
  next
    case guard: True
    show ?thesis
    proof (cases "cid \<in> processed rn")
      case True
      with guard Cons.prems(2) have "main_loop remote clock cfg rest rn = Some rn'" by simp
      from Cons.IH[OF Cons.prems(1) this] show ?thesis .
    next
      case False
      with guard Cons.prems(2) obtain end_of_body where
        "processChannel remote clock cfg cid (api rn) = Some end_of_body"
        and rest: "main_loop remote clock cfg rest (afterChannel cfg cid rn end_of_body) = Some rn'"
        by (auto split: option.splits)
      from guard afterChannel_results[of cfg cid rn end_of_body]
      have "int (length (results (afterChannel cfg cid rn end_of_body))) \<le> maxChannels cfg"
        by linarith
      from Cons.IH[OF this rest] show ?thesis .
    qed
  qed
qed

text \<open>
  The loop on a list of candidates is the loop on a first part of the list, followed
  by the loop on the rest from the state reached: the state after \<open>k\<close> candidates is
  the loop run on the first \<open>k\<close> of them.
\<close>

lemma main_loop_full:
  "\<not> int (length (results rn)) < maxChannels cfg \<Longrightarrow> main_loop remote clock cfg cs rn = Some rn"
  by (cases cs) simp_all

lemma main_loop_append:
  "main_loop remote clock cfg (xs @ ys) rn
     = (case main_loop remote clock cfg xs rn of
          None \<Rightarrow> None
        | Some rn' \<Rightarrow> main_loop remote clock cfg ys rn')"
proof (induction xs arbitrary: rn)
  case Nil
  then show ?case by simp
next
  case (Cons cid rest)
  show ?case
  proof (cases "int (length (results rn)) < maxChannels cfg")
    case False
    then show ?thesis by (simp add: main_loop_full)
  next
    case True
    with Cons show ?thesis by (simp split: option.splits)
  qed
qed

text \<open>The example run: one channel is fetched, passes every filter and is saved.\<close>

lemma coachRemote_request:
  "youtubeApiRequest coachRemote k ''channels'' ps st
     = (Json \<lparr>items = Some [coach_channel], nextPageToken = None\<rparr>, st\<lparr>fetches := Suc (fetches st)\<rparr>)"
  "youtubeApiRequest coachRemote k ''playlistItems'' ps st
     = (Json twoItemPage, st\<lparr>fetches := Suc (fetches st)\<rparr>)"
  "youtubeApiRequest coachRemote k ''videos'' ps st
     = (Json \<lparr>items = Some three_videos, nextPageToken = None\<rparr>, st\<lparr>fetches := Suc (fetches st)\<rparr>)"
  by (simp_all add: youtubeApiRequest_def loop_ok coachRemote_def)

lemma coach_subscribers: "channelSubscriberCount coach_channel = Some (Some 50000)"
  by code_simp

lemma coach_country: "channelCountry coach_channel = ''US''"
  by (simp add: channelCountry_def coach_channel_def)

lemma coach_uploads: "uploadsPlaylistId coach_channel = Some ''UUcoachcoachcoachcoach00''"
  by (simp add: uploadsPlaylistId_def coach_channel_def)

lemma coach_gate:
  "targetCountry cfg = [] \<Longrightarrow> minSubscribers cfg = 1000 \<Longrightarrow> channelGate cfg coach_channel = None"
  by (simp add: channelGate_def coach_subscribers coach_uploads)

lemma coach_details:
  "getChannelsDetails coachRemote cfg [cid] st
     = (Inr [coach_channel], sleep (sleepMs cfg) (st\<lparr>fetches := Suc (fetches st)\<rparr>))"
  by (simp add: getChannelsDetails_def coachRemote_request)

lemma coach_playlist:
  "getPlaylistVideoIds coachRemote cfg pl 12 st
     = Some ([''v1'', ''v2''], sleep (sleepMs cfg) (st\<lparr>fetches := Suc (fetches st)\<rparr>))"
  by (simp add: getPlaylistVideoIds_def getPlaylistVideoIds_loop.simps coachRemote_request
        twoItemPage_def playlistItem_def)

lemma coach_videos:
  "getVideosDetails coachRemote cfg [''v1'', ''v2''] st
     = (three_videos, sleep (sleepMs cfg) (st\<lparr>fetches := Suc (fetches st)\<rparr>))"
  by (simp add: getVideosDetails_def getVideosDetails_loop.simps coachRemote_request)

lemma three_videos_nonempty: "three_videos \<noteq> []"
  by (simp add: three_videos_def)

lemma coach_body:
  assumes "targetCountry cfg = []" and "minSubscribers cfg = 1000" and "sampleSize cfg = 12"
  shows "processChannel coachRemote fixedClock cfg cid freshClient
     = Some (sampleGate cfg 1700000000000 cid coach_channel three_videos,
             \<lparr>fetches = 3, sleeps = [sleepMs cfg, sleepMs cfg, sleepMs cfg]\<rparr>)"
  using assms
  by (simp add: processChannel_def coach_details coach_gate coach_uploads coach_playlist
        coach_videos three_videos_nonempty fixedClock_def sleep_def freshClient_def)

lemma coach_processed:
  "processChannel coachRemote fixedClock empty_keyword_config cid freshClient
     = Some (Saved (assembleRecord empty_keyword_config 1700000000000 cid coach_channel three_videos),
             \<lparr>fetches = 3, sleeps = [200, 200, 200]\<rparr>)"
  by (simp add: coach_body coach_saved empty_keyword_config_fields)

lemma coach_candidates:
  "channelIdsArray empty_keyword_config two_candidates = [''UCcoachcoachcoachcoach00'']"
  by (simp add: channelIdsArray_def slice0_def two_candidates_def empty_keyword_config_fields)

lemma coach_run:
  "main_loop coachRemote fixedClock empty_keyword_config
     (take 1 (channelIdsArray empty_keyword_config two_candidates))
     \<lparr>results = [], processed = {}, api = freshClient\<rparr>
   = Some \<lparr>results = [assembleRecord empty_keyword_config 1700000000000
                        ''UCcoachcoachcoachcoach00'' coach_channel three_videos],
           processed = {''UCcoachcoachcoachcoach00''},
           api = \<lparr>fetches = 3, sleeps = [200, 200, 200, 200]\<rparr>\<rparr>"
  by (simp add: coach_candidates coach_processed empty_keyword_config_fields sleep_def)

text \<open>
  C3. For a configuration with \<open>maxChannels\<close> not negative, the array of candidates
  handed to the main loop holds at most \<open>maxChannels\<close> ids, and \<open>results\<close> holds at most
  \<open>maxChannels\<close> records after every number \<open>k\<close> of candidates visited (the state of the
  loop after \<open>k\<close> candidates is the loop run on the first \<open>k\<close>) and at the end of the run;
  once \<open>results\<close> holds \<open>maxChannels\<close> records the loop ends where it is, whatever
  candidates are left.
\<close>

theorem maxChannels_cap:
  assumes "0 \<le> maxChannels cfg"
  shows "int (length (channelIdsArray cfg candidateChannelIds)) \<le> maxChannels cfg
       \<and> (\<forall>k rn. main_loop remote clock cfg (take k (channelIdsArray cfg candidateChannelIds))
                    \<lparr>results = [], processed = {}, api = st\<rparr> = Some rn
                  \<longrightarrow> int (length (results rn)) \<le> maxChannels cfg)
       \<and> (\<forall>rn. Apify_main remote clock URL_pathname cfg = Some (Inr rn)
                  \<longrightarrow> int (length (results rn)) \<le> maxChannels cfg)
       \<and> (\<forall>cs (rn :: run). maxChannels cfg \<le> int (length (results rn))
                  \<longrightarrow> main_loop remote clock cfg cs rn = Some rn)"
proof (intro conjI allI impI)
  show "int (length (channelIdsArray cfg candidateChannelIds)) \<le> maxChannels cfg"
  proof -
    from assms have "max (maxChannels cfg) 0 = maxChannels cfg" by simp
    with slice0_length[OF assms, of candidateChannelIds] show ?thesis
      by (simp add: channelIdsArray_def)
  qed
next
  fix k rn
  assume "main_loop remote clock cfg (take k (channelIdsArray cfg candidateChannelIds))
            \<lparr>results = [], processed = {}, api = st\<rparr> = Some rn"
  from main_loop_cap[OF _ this] assms show "int (length (results rn)) \<le> maxChannels cfg"
    by simp
next
  fix rn
  assume "Apify_main remote clock URL_pathname cfg = Some (Inr rn)"
  then obtain cs st2 where
    "main_loop remote clock cfg cs \<lparr>results = [], processed = {}, api = st2\<rparr> = Some rn"
    by (auto simp: Apify_main_def split: if_splits prod.splits)
  from main_loop_cap[OF _ this] assms show "int (length (results rn)) \<le> maxChannels cfg"
    by simp
next
  fix cs and rn :: run
  assume "maxChannels cfg \<le> int (length (results rn))"
  then show "main_loop remote clock cfg cs rn = Some rn"
    by (cases cs) simp_all
qed

theorem maxChannels_cap_witness:
  "length two_candidates = 2
   \<and> int (length (channelIdsArray empty_keyword_config two_candidates)) \<le> 1
   \<and> (\<exists>rn. main_loop coachRemote fixedClock empty_keyword_config
               (take 1 (channelIdsArray empty_keyword_config two_candidates))
               \<lparr>results = [], processed = {}, api = freshClient\<rparr> = Some rn
            \<and> length (results rn) = 1 \<and> int (length (results rn)) \<le> 1)"
proof -
  have room: "0 \<le> maxChannels empty_keyword_config" and one: "maxChannels empty_keyword_config = 1"
    by (simp_all add: empty_keyword_config_fields)
  from maxChannels_cap[where cfg=empty_keyword_config and candidateChannelIds=two_candidates
      and remote=coachRemote and clock=fixedClock and st=freshClient, OF room]
  have "int (length (channelIdsArray empty_keyword_config two_candidates)) \<le> 1"
    by (simp add: one)
  with coach_run show ?thesis
    by (simp add: two_candidates_def)
qed

subsection \<open>Exclude keywords\<close>

text \<open>
  A record reaches \<open>results\<close> only as the outcome \<open>Saved\<close> of the filter chain on the
  fetched channel and videos.
\<close>

lemma processChannel_saved:
  assumes "processChannel remote clock cfg cid st = Some (Saved r, st')"
  shows "\<exists>t ch videos. sampleGate cfg t cid ch videos = Saved r"
proof -
  have gate: "\<And>c. channelGate cfg c \<noteq> Some (Saved r)"
    by (simp add: channelGate_def)
  from assms gate show ?thesis
    by (auto simp: processChannel_def
          split: prod.splits sum.splits list.splits option.splits if_splits)
qed

lemma afterChannel_saved_only:
  "results (afterChannel cfg cid rn (Saved r, st1)) = results rn @ [r]"
  "\<not> isSaved oc \<Longrightarrow> results (afterChannel cfg cid rn (oc, st1)) = results rn"
  by (cases "(cfg, cid, rn, (oc, st1))" rule: afterChannel.cases; simp)+

text \<open>The skips of the filters on the channel alone.\<close>

lemma channelGate_skips:
  "channelGate cfg ch = Some oc \<Longrightarrow>
     oc \<in> {CountryMismatch, CountryMissing, SubscribersBelowMin, SubscribersHidden,
           NoUploadsPlaylist}"
  by (auto simp: channelGate_def split: if_splits)

text \<open>
  A sample whose text contains the lower-cased form of a non-empty exclude keyword gets
  no further than the exclude filter, and is stopped by it when it comes that far.
\<close>

lemma sampleGate_excluded:
  assumes "Some kw \<in> set (excludeKeywords cfg)" and "kw \<noteq> []"
    and "\<forall>sorted_videos. sortByPublishedAt videos = Inr sorted_videos \<longrightarrow>
           str_includes (combinedText ch (slice0 sorted_videos (sampleSize cfg))) (toLowerCase kw)"
  shows "sampleGate cfg now cid ch videos
           \<in> {NoRecentVideoWithinTimeframe, ShortsPresent, ExcludedByKeyword}
         \<or> (\<exists>e. sampleGate cfg now cid ch videos = Failed e)"
    and "sortByPublishedAt videos = Inr sorted_videos \<Longrightarrow>
         hasRecentWithin cfg now (slice0 sorted_videos (sampleSize cfg)) = Inr True \<Longrightarrow>
         allowShorts cfg \<or> \<not> 0 < shortsRatio (slice0 sorted_videos (sampleSize cfg)) \<Longrightarrow>
         sampleGate cfg now cid ch videos = ExcludedByKeyword"
proof -
  have stopped: "excluded cfg (combinedText ch (slice0 sv (sampleSize cfg)))"
    if "sortByPublishedAt videos = Inr sv" for sv
    using assms that by (auto simp: excluded_def keywordLoop_iff)
  show "sampleGate cfg now cid ch videos
           \<in> {NoRecentVideoWithinTimeframe, ShortsPresent, ExcludedByKeyword}
         \<or> (\<exists>e. sampleGate cfg now cid ch videos = Failed e)"
  proof (cases "sortByPublishedAt videos")
    case (Inl e)
    then show ?thesis by (simp add: sampleGate_def)
  next
    case (Inr sv)
    with stopped[OF Inr] show ?thesis
      by (simp add: sampleGate_def Let_def split: sum.splits)
  qed
  show "sampleGate cfg now cid ch videos = ExcludedByKeyword"
    if "sortByPublishedAt videos = Inr sorted_videos"
      and "hasRecentWithin cfg now (slice0 sorted_videos (sampleSize cfg)) = Inr True"
      and "allowShorts cfg \<or> \<not> 0 < shortsRatio (slice0 sorted_videos (sampleSize cfg))"
    using that stopped[OF that(1)] by (auto simp: sampleGate_def Let_def)
qed

text \<open>
  The example: with the include keyword \<open>coach\<close> and the exclude keyword \<open>guru\<close>, the
  example channel, whose description reads \<open>The Guru of charts\<close>, satisfies the include
  filter and is stopped by the exclude filter; without the exclude keyword it is saved.
\<close>

lemma guru_included: "includedByKeyword guru_config (combinedText coach_channel three_videos)"
  using coach_text_has_coach by (simp add: includedByKeyword_def guru_config_fields)

lemma guru_excluded:
  "sampleGate guru_config t cid coach_channel three_videos = ExcludedByKeyword"
  using coach_text_has_guru
  by (simp add: sampleGate_def three_videos_sorted three_videos_slice three_videos_no_shorts
        guru_config_fields hasRecentWithin_def excluded_def)

lemma guru_saved_without_keyword:
  "sampleGate (guru_config\<lparr>excludeKeywords := []\<rparr>) t cid coach_channel three_videos
     = Saved (assembleRecord (guru_config\<lparr>excludeKeywords := []\<rparr>) t cid coach_channel
                three_videos)"
  using coach_text_has_coach
  by (simp add: sampleGate_def three_videos_sorted three_videos_slice three_videos_no_shorts
        guru_config_fields hasRecentWithin_def excluded_def includedByKeyword_def
        three_videos_avg)

text \<open>
  C8, as amended. Let the channel of a candidate, the ids of its uploads and their
  videos be what the three fetches of the loop body return, and let the text of the
  candidate (channel title, channel description and the title and description of every
  sample video, joined by spaces and lower-cased with \<open>toLowerCase\<close>) contain the
  lower-cased form of an exclude keyword that is not the empty string. Then the body of
  the loop ends for the candidate in a skip of the exclude filter or of a step before
  it, or in an error: it reaches neither the include filter nor the view filters nor
  the push, and \<open>results\<close> is after the candidate what it was before, whatever the
  include keywords are. Where the candidate passes every step before the exclude
  filter, the outcome is the skip of the exclude filter. The sample is the one the body
  takes from the fetched videos.
\<close>

theorem exclude_keyword_skips:
  fixes rn :: run
  assumes listed: "Some kw \<in> set (excludeKeywords cfg)" and nonempty: "kw \<noteq> []"
    and channel: "getChannelsDetails remote cfg [cid] st = (Inr (ch # others), st1)"
    and uploads: "getPlaylistVideoIds remote cfg (the (uploadsPlaylistId ch)) (sampleSize cfg) st1
                    = Some (videoIds, st2)"
    and details: "getVideosDetails remote cfg videoIds st2 = (videos, st3)"
    and occurs: "\<forall>sorted_videos. sortByPublishedAt videos = Inr sorted_videos \<longrightarrow>
           str_includes (combinedText ch (slice0 sorted_videos (sampleSize cfg))) (toLowerCase kw)"
  shows "\<exists>oc st'. processChannel remote clock cfg cid st = Some (oc, st')
           \<and> (oc \<in> {CountryMismatch, CountryMissing, SubscribersBelowMin, SubscribersHidden,
                     NoUploadsPlaylist, NoRecentVideos, NoVideoDetails,
                     NoRecentVideoWithinTimeframe, ShortsPresent, ExcludedByKeyword}
                \<or> (\<exists>e. oc = Failed e))
           \<and> results (afterChannel cfg cid rn (oc, st')) = results rn
           \<and> (channelGate cfg ch = None \<and> videoIds \<noteq> [] \<and> videos \<noteq> []
                \<and> sortByPublishedAt videos = Inr sample_source
                \<and> hasRecentWithin cfg (clock (fetches st3)) (slice0 sample_source (sampleSize cfg))
                    = Inr True
                \<and> (allowShorts cfg \<or> \<not> 0 < shortsRatio (slice0 sample_source (sampleSize cfg)))
              \<longrightarrow> oc = ExcludedByKeyword)"
proof -
  define oc where "oc =
     (case channelGate cfg ch of
        Some skip \<Rightarrow> skip
      | None \<Rightarrow>
          if videoIds = [] then NoRecentVideos
          else if videos = [] then NoVideoDetails
          else sampleGate cfg (clock (fetches st3)) cid ch videos)"
  define st' where "st' =
     (case channelGate cfg ch of
        Some skip \<Rightarrow> st1
      | None \<Rightarrow> if videoIds = [] then st2 else st3)"
  have body: "processChannel remote clock cfg cid st = Some (oc, st')"
    using channel uploads details
    by (simp add: processChannel_def oc_def st'_def split: option.splits)
  have kind: "oc \<in> {CountryMismatch, CountryMissing, SubscribersBelowMin, SubscribersHidden,
                     NoUploadsPlaylist, NoRecentVideos, NoVideoDetails,
                     NoRecentVideoWithinTimeframe, ShortsPresent, ExcludedByKeyword}
                \<or> (\<exists>e. oc = Failed e)"
  proof (cases "channelGate cfg ch")
    case (Some skip)
    with channelGate_skips[OF Some] show ?thesis
      by (auto simp: oc_def)
  next
    case None
    with sampleGate_excluded(1)[OF listed nonempty occurs, of "clock (fetches st3)" cid]
    show ?thesis
      by (auto simp: oc_def)
  qed
  then have "\<not> isSaved oc"
    by auto
  then have untouched: "results (afterChannel cfg cid rn (oc, st')) = results rn"
    by (rule afterChannel_saved_only(2))
  have reached: "channelGate cfg ch = None \<and> videoIds \<noteq> [] \<and> videos \<noteq> []
                \<and> sortByPublishedAt videos = Inr sample_source
                \<and> hasRecentWithin cfg (clock (fetches st3)) (slice0 sample_source (sampleSize cfg))
                    = Inr True
                \<and> (allowShorts cfg \<or> \<not> 0 < shortsRatio (slice0 sample_source (sampleSize cfg)))
              \<longrightarrow> oc = ExcludedByKeyword"
    using sampleGate_excluded(2)[OF listed nonempty occurs, of sample_source "clock (fetches st3)" cid]
    by (auto simp: oc_def)
  from body kind untouched reached show ?thesis
    by blast
qed

theorem exclude_keyword_skips_witness:
  "includedByKeyword guru_config (combinedText coach_channel three_videos)
   \<and> processChannel coachRemote fixedClock guru_config ''UCcoachcoachcoachcoach00'' freshClient
       = Some (ExcludedByKeyword, \<lparr>fetches = 3, sleeps = [200, 200, 200]\<rparr>)
   \<and> results (afterChannel guru_config ''UCcoachcoachcoachcoach00''
                \<lparr>results = [], processed = {}, api = freshClient\<rparr>
                (ExcludedByKeyword, \<lparr>fetches = 3, sleeps = [200, 200, 200]\<rparr>)) = []
   \<and> isSaved (fst (the (processChannel coachRemote fixedClock
                          (guru_config\<lparr>excludeKeywords := []\<rparr>) ''UCcoachcoachcoachcoach00''
                          freshClient)))"
proof -
  let ?st1 = "sleep (sleepMs guru_config) (freshClient\<lparr>fetches := Suc (fetches freshClient)\<rparr>)"
  let ?st2 = "sleep (sleepMs guru_config) (?st1\<lparr>fetches := Suc (fetches ?st1)\<rparr>)"
  let ?st3 = "sleep (sleepMs guru_config) (?st2\<lparr>fetches := Suc (fetches ?st2)\<rparr>)"
  let ?rn = "\<lparr>results = [], processed = {}, api = freshClient\<rparr>"
  have listed: "Some ''guru'' \<in> set (excludeKeywords guru_config)"
    by (simp add: guru_config_fields)
  have nonempty: "''guru'' \<noteq> []"
    by simp
  have channel: "getChannelsDetails coachRemote guru_config [''UCcoachcoachcoachcoach00'']
                   freshClient = (Inr (coach_channel # []), ?st1)"
    by (rule coach_details)
  have uploads: "getPlaylistVideoIds coachRemote guru_config (the (uploadsPlaylistId coach_channel))
                   (sampleSize guru_config) ?st1 = Some ([''v1'', ''v2''], ?st2)"
    by (simp only: guru_config_fields coach_playlist)
  have details: "getVideosDetails coachRemote guru_config [''v1'', ''v2''] ?st2
                   = (three_videos, ?st3)"
    by (rule coach_videos)
  have occurs: "\<forall>sorted_videos. sortByPublishedAt three_videos = Inr sorted_videos \<longrightarrow>
           str_includes (combinedText coach_channel (slice0 sorted_videos (sampleSize guru_config)))
             (toLowerCase ''guru'')"
    using coach_text_has_guru
    by (simp add: three_videos_sorted three_videos_slice guru_config_fields)
  have earlier: "channelGate guru_config coach_channel = None \<and> [''v1'', ''v2''] \<noteq> []
       \<and> three_videos \<noteq> [] \<and> sortByPublishedAt three_videos = Inr three_videos
       \<and> hasRecentWithin guru_config (fixedClock (fetches ?st3))
            (slice0 three_videos (sampleSize guru_config)) = Inr True
       \<and> (allowShorts guru_config
            \<or> \<not> 0 < shortsRatio (slice0 three_videos (sampleSize guru_config)))"
    by (simp add: coach_gate three_videos_nonempty three_videos_sorted three_videos_slice
          three_videos_no_shorts guru_config_fields hasRecentWithin_def)
  from exclude_keyword_skips[where rn="?rn" and clock=fixedClock and sample_source=three_videos,
      OF listed nonempty channel uploads details occurs] earlier
  have "\<exists>st'. processChannel coachRemote fixedClock guru_config ''UCcoachcoachcoachcoach00''
                freshClient = Some (ExcludedByKeyword, st')
              \<and> results (afterChannel guru_config ''UCcoachcoachcoachcoach00'' ?rn
                           (ExcludedByKeyword, st')) = results ?rn"
    by blast
  moreover have "processChannel coachRemote fixedClock guru_config ''UCcoachcoachcoachcoach00''
                   freshClient
                 = Some (sampleGate guru_config 1700000000000 ''UCcoachcoachcoachcoach00''
                           coach_channel three_videos,
                         \<lparr>fetches = 3, sleeps = [200, 200, 200]\<rparr>)"
    by (simp add: coach_body guru_config_fields)
  moreover have "processChannel coachRemote fixedClock (guru_config\<lparr>excludeKeywords := []\<rparr>)
                   ''UCcoachcoachcoachcoach00'' freshClient
                 = Some (sampleGate (guru_config\<lparr>excludeKeywords := []\<rparr>) 1700000000000
                           ''UCcoachcoachcoachcoach00'' coach_channel three_videos,
                         \<lparr>fetches = 3, sleeps = [200, 200, 200]\<rparr>)"
    by (simp add: coach_body guru_config_fields)
  ultimately show ?thesis
    using guru_included by (auto simp: guru_saved_without_keyword)
qed

text \<open>
  C8 as stated fails for the empty exclude keyword: every text contains it, lower-cased
  or not, and the candidate is saved all the same; its record is in \<open>results\<close> at the end
  of the run.
\<close>

theorem empty_exclude_keyword_counterexample:
  "Some [] \<in> set (excludeKeywords empty_keyword_config)
   \<and> str_includes (join '' '' (combinedTextParts coach_channel three_videos)) []
   \<and> str_includes (combinedText coach_channel three_videos) (toLowerCase [])
   \<and> processChannel coachRemote fixedClock empty_keyword_config ''UCcoachcoachcoachcoach00''
        freshClient
       = Some (Saved (assembleRecord empty_keyword_config 1700000000000
                        ''UCcoachcoachcoachcoach00'' coach_channel three_videos),
               \<lparr>fetches = 3, sleeps = [200, 200, 200]\<rparr>)
   \<and> main_loop coachRemote fixedClock empty_keyword_config [''UCcoachcoachcoachcoach00'']
        \<lparr>results = [], processed = {}, api = freshClient\<rparr>
       = Some \<lparr>results = [assembleRecord empty_keyword_config 1700000000000
                            ''UCcoachcoachcoachcoach00'' coach_channel three_videos],
               processed = {''UCcoachcoachcoachcoach00''},
               api = \<lparr>fetches = 3, sleeps = [200, 200, 200, 200]\<rparr>\<rparr>"
  using coach_run
  by (simp add: empty_keyword_config_fields str_includes_empty toLowerCase_def coach_processed
        coach_candidates)

end
